theory Spec2Isabelle
  imports Main
begin

section \<open>The error-report encoder and exception dispatcher of libdeno\<close>

text \<open>
  A shallow embedding of \<^verbatim>\<open>core/libdeno/exceptions.cc\<close>: the string helpers
  \<^verbatim>\<open>ReplaceAll\<close> and \<^verbatim>\<open>EscapeString\<close>, the report encoder
  \<^verbatim>\<open>EncodeMessageAsJSON\<close>, and the dispatchers \<^verbatim>\<open>HandleException\<close> and
  \<^verbatim>\<open>HandleExceptionMessage\<close>.

  The script engine (V8) is not part of the file. What the code reads from a message or
  a stack frame is a field of a record; what the engine computes from an exception
  value is a function handed to the dispatcher. A \<^verbatim>\<open>Maybe<int>\<close> is an
  \<open>int option\<close>, a possibly empty \<^verbatim>\<open>Local\<close> handle is an \<open>option\<close> too, and the
  engine calls that crash the process on an empty argument (\<^verbatim>\<open>FromJust\<close>,
  \<^verbatim>\<open>ToLocalChecked\<close>, \<^verbatim>\<open>CHECK_NOT_NULL\<close>) return an error value.
\<close>

subsection \<open>Results of fallible code\<close>

datatype error =
    FromJustIsNothing
  | ToLocalCheckedIsEmpty
  | CheckNotNull
  | NoReturn

text \<open>
  \<open>FromJustIsNothing\<close>: \<^verbatim>\<open>Maybe<T>::FromJust()\<close> on an empty value, which the
  engine documents as crashing the process. \<open>ToLocalCheckedIsEmpty\<close>: the same for
  \<^verbatim>\<open>MaybeLocal<T>::ToLocalChecked()\<close>. \<open>CheckNotNull\<close>: a failed
  \<^verbatim>\<open>CHECK_NOT_NULL\<close>. \<open>NoReturn\<close>: a loop that does not come back.
\<close>

definition and_then :: "error + 'a \<Rightarrow> ('a \<Rightarrow> error + 'b) \<Rightarrow> error + 'b" where
  "and_then r f = (case r of Inl e \<Rightarrow> Inl e | Inr v \<Rightarrow> f v)"

definition IsJust :: "'a option \<Rightarrow> bool" where
  "IsJust m = (m \<noteq> None)"

definition FromJust :: "'a option \<Rightarrow> error + 'a" where
  "FromJust m = (case m of None \<Rightarrow> Inl FromJustIsNothing | Some v \<Rightarrow> Inr v)"

definition ToLocalChecked :: "'a option \<Rightarrow> error + 'a" where
  "ToLocalChecked m = (case m of None \<Rightarrow> Inl ToLocalCheckedIsEmpty | Some v \<Rightarrow> Inr v)"

subsection \<open>ReplaceAll and EscapeString\<close>

text \<open>
  \<^verbatim>\<open>std::string::find(from, pos)\<close>: the least position \<open>p \<ge> pos\<close> at which \<open>from\<close>
  occurs in \<open>str\<close>, \<open>None\<close> for \<^verbatim>\<open>npos\<close>. An empty \<open>from\<close> is found at \<open>pos\<close>
  itself as long as \<open>pos \<le> length str\<close>. Positions are natural numbers: a string
  never reaches the size at which \<^verbatim>\<open>size_type\<close> would wrap.
\<close>

function str_find :: "string \<Rightarrow> string \<Rightarrow> nat \<Rightarrow> nat option" where
  "str_find str from pos =
     (if length str < pos + length from then None
      else if take (length from) (drop pos str) = from then Some pos
      else str_find str from (Suc pos))"
  by pat_completeness auto
termination
  by (relation "measure (\<lambda>(str, from, pos). Suc (length str) - pos)") auto

declare str_find.simps [simp del]

text \<open>\<^verbatim>\<open>str.replace(pos, len, to)\<close>, for \<open>pos \<le> length str\<close>.\<close>

definition str_replace :: "string \<Rightarrow> nat \<Rightarrow> nat \<Rightarrow> string \<Rightarrow> string" where
  "str_replace str pos len to = take pos str @ to @ drop (pos + len) str"

text \<open>
  The loop of \<^verbatim>\<open>ReplaceAll\<close>, with the string and the position as its state. With
  an empty \<open>from\<close> the loop of the source never ends, so the function is partial:
  \<open>None\<close> is "does not return".
\<close>

partial_function (option) ReplaceAll_loop ::
  "string \<Rightarrow> string \<Rightarrow> string \<Rightarrow> nat \<Rightarrow> string option" where
  "ReplaceAll_loop str from to pos =
     (case str_find str from pos of
        None \<Rightarrow> Some str
      | Some p \<Rightarrow> ReplaceAll_loop (str_replace str p (length from) to) from to (p + length to))"

declare ReplaceAll_loop.simps [code]

definition ReplaceAll :: "string \<Rightarrow> string \<Rightarrow> string \<Rightarrow> string option" where
  "ReplaceAll str from to = ReplaceAll_loop str from to 0"

definition EscapeString :: "string \<Rightarrow> string option" where
  "EscapeString str = ReplaceAll str [CHR 0x22] [CHR 0x5C, CHR 0x22]"

text \<open>
  What "every left-to-right non-overlapping occurrence of \<open>from\<close> is replaced" means:
  read the string from the left; where \<open>from\<close> starts, put \<open>to\<close> and go on behind the
  occurrence; elsewhere keep the character.
\<close>

function replace_occurrences :: "string \<Rightarrow> string \<Rightarrow> string \<Rightarrow> string" where
  "replace_occurrences from to s =
     (if s = [] then []
      else if from \<noteq> [] \<and> take (length from) s = from
        then to @ replace_occurrences from to (drop (length from) s)
      else hd s # replace_occurrences from to (tl s))"
  by pat_completeness auto
termination
  by (relation "measure (\<lambda>(from, to, s). length s)") auto

declare replace_occurrences.simps [simp del]

definition escape_char :: "char \<Rightarrow> string" where
  "escape_char c = (if c = CHR 0x22 then [CHR 0x5C, CHR 0x22] else [c])"

subsection \<open>Text written by the stream operators\<close>

text \<open>
  \<^verbatim>\<open>operator<<\<close> on an \<^verbatim>\<open>int\<close> writes the decimal numeral, with a minus sign for a
  negative number. No arithmetic is done on these numbers, so they are \<open>int\<close>.
\<close>

fun show_nat :: "nat \<Rightarrow> string" where
  "show_nat n =
     (if n < 10 then [char_of (48 + n)]
      else show_nat (n div 10) @ [char_of (48 + n mod 10)])"

declare show_nat.simps [simp del]

definition show_int :: "int \<Rightarrow> string" where
  "show_int i = (if i < 0 then CHR ''-'' # show_nat (nat (- i)) else show_nat (nat i))"

text \<open>\<^verbatim>\<open>(b ? "true" : "false")\<close>\<close>

definition show_bool :: "bool \<Rightarrow> string" where
  "show_bool b = (if b then ''true'' else ''false'')"

subsection \<open>What the engine hands over\<close>

text \<open>
  A stack frame, as \<^verbatim>\<open>EncodeMessageAsJSON\<close> reads it. Texts are the bytes of the
  \<^verbatim>\<open>v8::String::Utf8Value\<close> the code copies into a \<^verbatim>\<open>std::string\<close>;
  \<open>GetScriptNameOrSourceURL\<close> is \<open>None\<close> when the handle is empty. The line
  number of a frame is \<open>Frame_GetLineNumber\<close>, since a message has a
  \<^verbatim>\<open>GetLineNumber\<close> of its own.
\<close>

record StackFrame =
  GetFunctionName :: string
  Frame_GetLineNumber :: int
  GetColumn :: int
  IsEval :: bool
  IsConstructor :: bool
  IsWasm :: bool
  GetScriptNameOrSourceURL :: "string option"

text \<open>
  A message. \<open>GetScriptResourceName\<close> is the resource name as text, and
  \<open>Stringify_ScriptResourceName\<close> is what \<^verbatim>\<open>v8::JSON::Stringify\<close> returns for the
  same value (\<open>None\<close>: an empty \<^verbatim>\<open>MaybeLocal\<close>). \<open>GetStackTrace\<close> is \<open>None\<close> when the
  handle is empty, and the list of the frames of the trace otherwise.
\<close>

record Message =
  Get :: string
  GetScriptResourceName :: string
  Stringify_ScriptResourceName :: "string option"
  GetStartPosition :: int
  GetEndPosition :: int
  ErrorLevel :: int
  IsSharedCrossOrigin :: bool
  IsOpaque :: bool
  GetSourceLine :: "string option"
  GetLineNumber :: "int option"
  GetStartColumn :: "int option"
  GetEndColumn :: "int option"
  GetStackTrace :: "StackFrame list option"

subsection \<open>EncodeMessageAsJSON\<close>

text \<open>
  The string literals of the source are continued over line ends with a backslash, so
  the indentation of the continuation line is part of the literal.
\<close>

definition source_line :: "Message \<Rightarrow> error + string" where
  \<open>source_line message =
     (case GetSourceLine message of
        None \<Rightarrow> Inr []
      | Some v \<Rightarrow>
          (case EscapeString v of
             None \<Rightarrow> Inl NoReturn
           | Some escaped \<Rightarrow> Inr (''"sourceLine": "'' @ escaped @ ''",'')))\<close>

definition line_number :: "Message \<Rightarrow> error + string" where
  \<open>line_number message =
     (if IsJust (GetLineNumber message)
      then and_then (FromJust (GetLineNumber message))
             (\<lambda>n. Inr (''"lineNumber": '' @ show_int n @ '',''))
      else Inr [])\<close>

definition start_column :: "Message \<Rightarrow> error + string" where
  \<open>start_column message =
     (if IsJust (GetStartColumn message)
      then and_then (FromJust (GetStartColumn message))
             (\<lambda>n. Inr (''"startColumn": '' @ show_int n @ '',''))
      else Inr [])\<close>

definition end_column :: "Message \<Rightarrow> error + string" where
  \<open>end_column message =
     (if IsJust (GetEndColumn message)
      then and_then (FromJust (GetEndColumn message))
             (\<lambda>n. Inr (''"endColumn": '' @ show_int n @ '',''))
      else Inr [])\<close>

text \<open>One turn of the loop over the frames of the trace.\<close>

definition frame_json :: "StackFrame \<Rightarrow> string" where
  \<open>frame_json frame =
     ''{        "line": '' @ show_int (Frame_GetLineNumber frame) @
     '',        "column": '' @ show_int (GetColumn frame) @
     '',        "functionName": "'' @ GetFunctionName frame @
     ''",        "scriptName": "'' @
       (case GetScriptNameOrSourceURL frame of None \<Rightarrow> ''<unknown>'' | Some name \<Rightarrow> name) @
     ''",        "isEval": '' @ show_bool (IsEval frame) @
     '',        "isConstructor": '' @ show_bool (IsConstructor frame) @
     '',        "isWasm": '' @ show_bool (IsWasm frame) @
     ''      }''\<close>

text \<open>
  The loop \<^verbatim>\<open>for (i = 0; i < count; ++i)\<close>: a comma follows every frame but the last
  (\<^verbatim>\<open>i < count - 1\<close>).
\<close>

fun frames_loop :: "StackFrame list \<Rightarrow> string" where
  "frames_loop [] = []"
| "frames_loop (frame # frames) =
     frame_json frame @ (if frames \<noteq> [] then '','' else []) @ frames_loop frames"

text \<open>
  The branch taken when the trace handle is empty. Both tests are written
  \<^verbatim>\<open>!maybe.IsJust()\<close> in the source, and \<^verbatim>\<open>FromJust\<close> is called under them.
\<close>

definition fallback_line :: "Message \<Rightarrow> error + string" where
  \<open>fallback_line message =
     (if \<not> IsJust (GetLineNumber message)
      then and_then (FromJust (GetLineNumber message))
             (\<lambda>n. Inr (''"line": '' @ show_int n @ '',''))
      else Inr [])\<close>

definition fallback_column :: "Message \<Rightarrow> error + string" where
  \<open>fallback_column message =
     (if \<not> IsJust (GetStartColumn message)
      then and_then (FromJust (GetStartColumn message))
             (\<lambda>n. Inr (''"column": '' @ show_int n @ '',''))
      else Inr [])\<close>

definition stack_trace_json :: "Message \<Rightarrow> error + string" where
  \<open>stack_trace_json message =
     (case GetStackTrace message of
        Some frames \<Rightarrow> Inr (''['' @ frames_loop frames @ '']'')
      | None \<Rightarrow>
          and_then (fallback_line message) (\<lambda>line.
          and_then (fallback_column message) (\<lambda>column.
          and_then (ToLocalChecked (Stringify_ScriptResourceName message)) (\<lambda>script_name.
          Inr (''[{'' @ line @ column @ ''"scriptName": "'' @ script_name @ ''"    }]'')))))\<close>

definition EncodeMessageAsJSON :: "Message \<Rightarrow> error + string" where
  \<open>EncodeMessageAsJSON message =
     and_then (source_line message) (\<lambda>source_line.
     and_then (line_number message) (\<lambda>line_number.
     and_then (start_column message) (\<lambda>start_column.
     and_then (end_column message) (\<lambda>end_column.
     and_then (stack_trace_json message) (\<lambda>stack_trace_json.
     Inr (''{    "message": "'' @ Get message @
          ''",    "scriptResourceName": "'' @ GetScriptResourceName message @
          ''",    "startPosition": '' @ show_int (GetStartPosition message) @
          '',    "endPosition": '' @ show_int (GetEndPosition message) @
          '',    "errorLevel": '' @ show_int (ErrorLevel message) @
          '',    "isSharedCrossOrigin": '' @ show_bool (IsSharedCrossOrigin message) @
          '',    "isOpaque": '' @ show_bool (IsOpaque message) @ '','' @
          source_line @ line_number @ start_column @ end_column @
          ''"frames": '' @ stack_trace_json @
          ''}''))))))\<close>

subsection \<open>Reading a JSON text\<close>

text \<open>
  The specification speaks of a report that "parses" and of the keys and values a
  consumer finds in it. This is the reader they are measured with: a reader of JSON texts after
  RFC 8259, one character at a time, with the containers that are still open on a stack.
  Nothing here comes from \<^verbatim>\<open>exceptions.cc\<close>.

  A number is kept as its numeral; a \<^verbatim>\<open>\u\<close> escape is kept as the UTF-8 bytes of its
  code unit; bytes above 127 are taken as they come.
\<close>

datatype json =
    JNull
  | JBool bool
  | JNumber string
  | JString string
  | JArray "json list"
  | JObject "(string \<times> json) list"

datatype container =
    InArray "json list"
  | InObject "(string \<times> json) list" "string option"

datatype num_state = NMinus | NZero | NInt | NDot | NFrac | NExp | NExpSign | NExpDigits

datatype mode =
    ExpectValue
  | ExpectValueOrClose
  | ExpectKeyOrClose
  | ExpectKey
  | ExpectColon
  | AfterValue
  | InString bool string
  | InEscape bool string
  | InUnicode bool string nat nat
  | InNumber num_state string
  | InLiteral string json

datatype pstate = Reading mode "container list" | Done json | Failed

definition is_ws :: "char \<Rightarrow> bool" where
  "is_ws c = (c = CHR '' '' \<or> c = CHR 0x09 \<or> c = CHR 0x0A \<or> c = CHR 0x0D)"

definition is_digit :: "char \<Rightarrow> bool" where
  "is_digit c = (48 \<le> (of_char c :: nat) \<and> (of_char c :: nat) \<le> 57)"

definition hex_val :: "char \<Rightarrow> nat option" where
  "hex_val c =
     (let n = (of_char c :: nat) in
      if 48 \<le> n \<and> n \<le> 57 then Some (n - 48)
      else if 65 \<le> n \<and> n \<le> 70 then Some (n - 55)
      else if 97 \<le> n \<and> n \<le> 102 then Some (n - 87)
      else None)"

definition utf8 :: "nat \<Rightarrow> string" where
  "utf8 u =
     (if u < 128 then [char_of u]
      else if u < 2048 then [char_of (192 + u div 64), char_of (128 + u mod 64)]
      else [char_of (224 + u div 4096), char_of (128 + (u div 64) mod 64),
            char_of (128 + u mod 64)])"

definition unescape :: "char \<Rightarrow> char option" where
  "unescape c =
     (if c = CHR 0x22 \<or> c = CHR 0x5C \<or> c = CHR ''/'' then Some c
      else if c = CHR ''b'' then Some (CHR 0x08)
      else if c = CHR ''f'' then Some (CHR 0x0C)
      else if c = CHR ''n'' then Some (CHR 0x0A)
      else if c = CHR ''r'' then Some (CHR 0x0D)
      else if c = CHR ''t'' then Some (CHR 0x09)
      else None)"

text \<open>The number grammar: \<open>None\<close> when the character does not go on with the numeral.\<close>

fun num_step :: "num_state \<Rightarrow> char \<Rightarrow> num_state option" where
  "num_step NMinus c =
     (if c = CHR ''0'' then Some NZero else if is_digit c then Some NInt else None)"
| "num_step NZero c =
     (if c = CHR ''.'' then Some NDot
      else if c = CHR ''e'' \<or> c = CHR ''E'' then Some NExp else None)"
| "num_step NInt c =
     (if is_digit c then Some NInt
      else if c = CHR ''.'' then Some NDot
      else if c = CHR ''e'' \<or> c = CHR ''E'' then Some NExp else None)"
| "num_step NDot c = (if is_digit c then Some NFrac else None)"
| "num_step NFrac c =
     (if is_digit c then Some NFrac
      else if c = CHR ''e'' \<or> c = CHR ''E'' then Some NExp else None)"
| "num_step NExp c =
     (if c = CHR ''+'' \<or> c = CHR ''-'' then Some NExpSign
      else if is_digit c then Some NExpDigits else None)"
| "num_step NExpSign c = (if is_digit c then Some NExpDigits else None)"
| "num_step NExpDigits c = (if is_digit c then Some NExpDigits else None)"

fun num_final :: "num_state \<Rightarrow> bool" where
  "num_final NZero = True"
| "num_final NInt = True"
| "num_final NFrac = True"
| "num_final NExpDigits = True"
| "num_final _ = False"

text \<open>A value is complete: it goes into the innermost open container.\<close>

fun finish :: "json \<Rightarrow> container list \<Rightarrow> pstate" where
  "finish v [] = Done v"
| "finish v (InArray xs # stk) = Reading AfterValue (InArray (v # xs) # stk)"
| "finish v (InObject kvs (Some k) # stk) = Reading AfterValue (InObject ((k, v) # kvs) None # stk)"
| "finish v (InObject kvs None # stk) = Failed"

fun close_or_next :: "container list \<Rightarrow> char \<Rightarrow> pstate" where
  "close_or_next [] c = Failed"
| "close_or_next (InArray xs # stk) c =
     (if c = CHR '','' then Reading ExpectValue (InArray xs # stk)
      else if c = CHR '']'' then finish (JArray (rev xs)) stk
      else Failed)"
| "close_or_next (InObject kvs None # stk) c =
     (if c = CHR '','' then Reading ExpectKey (InObject kvs None # stk)
      else if c = CHR ''}'' then finish (JObject (rev kvs)) stk
      else Failed)"
| "close_or_next (InObject kvs (Some k) # stk) c = Failed"

text \<open>A character behind a complete value.\<close>

fun resume :: "pstate \<Rightarrow> char \<Rightarrow> pstate" where
  "resume (Done v) c = (if is_ws c then Done v else Failed)"
| "resume (Reading AfterValue stk) c = (if is_ws c then Reading AfterValue stk else close_or_next stk c)"
| "resume _ c = Failed"

definition start_value :: "container list \<Rightarrow> char \<Rightarrow> pstate" where
  "start_value stk c =
     (if c = CHR 0x22 then Reading (InString False []) stk
      else if c = CHR ''-'' then Reading (InNumber NMinus [c]) stk
      else if c = CHR ''0'' then Reading (InNumber NZero [c]) stk
      else if is_digit c then Reading (InNumber NInt [c]) stk
      else if c = CHR ''['' then Reading ExpectValueOrClose (InArray [] # stk)
      else if c = CHR ''{'' then Reading ExpectKeyOrClose (InObject [] None # stk)
      else if c = CHR ''t'' then Reading (InLiteral ''rue'' (JBool True)) stk
      else if c = CHR ''f'' then Reading (InLiteral ''alse'' (JBool False)) stk
      else if c = CHR ''n'' then Reading (InLiteral ''ull'' JNull) stk
      else Failed)"

fun end_string :: "bool \<Rightarrow> string \<Rightarrow> container list \<Rightarrow> pstate" where
  "end_string False s stk = finish (JString s) stk"
| "end_string True s (InObject kvs None # stk) = Reading ExpectColon (InObject kvs (Some s) # stk)"
| "end_string True s _ = Failed"

fun step :: "pstate \<Rightarrow> char \<Rightarrow> pstate" where
  "step (Reading ExpectValue stk) c =
     (if is_ws c then Reading ExpectValue stk else start_value stk c)"
| "step (Reading ExpectValueOrClose stk) c =
     (if is_ws c then Reading ExpectValueOrClose stk
      else if c = CHR '']'' then close_or_next stk c
      else start_value stk c)"
| "step (Reading ExpectKeyOrClose stk) c =
     (if is_ws c then Reading ExpectKeyOrClose stk
      else if c = CHR ''}'' then close_or_next stk c
      else if c = CHR 0x22 then Reading (InString True []) stk
      else Failed)"
| "step (Reading ExpectKey stk) c =
     (if is_ws c then Reading ExpectKey stk
      else if c = CHR 0x22 then Reading (InString True []) stk
      else Failed)"
| "step (Reading ExpectColon stk) c =
     (if is_ws c then Reading ExpectColon stk
      else if c = CHR '':'' then Reading ExpectValue stk
      else Failed)"
| "step (Reading AfterValue stk) c = resume (Reading AfterValue stk) c"
| "step (Reading (InString k acc) stk) c =
     (if c = CHR 0x22 then end_string k (rev acc) stk
      else if c = CHR 0x5C then Reading (InEscape k acc) stk
      else if (of_char c :: nat) < 32 then Failed
      else Reading (InString k (c # acc)) stk)"
| "step (Reading (InEscape k acc) stk) c =
     (case unescape c of
        Some d \<Rightarrow> Reading (InString k (d # acc)) stk
      | None \<Rightarrow> if c = CHR ''u'' then Reading (InUnicode k acc 4 0) stk else Failed)"
| "step (Reading (InUnicode k acc n u) stk) c =
     (case hex_val c of
        None \<Rightarrow> Failed
      | Some d \<Rightarrow>
          if n \<le> 1 then Reading (InString k (rev (utf8 (16 * u + d)) @ acc)) stk
          else Reading (InUnicode k acc (n - 1) (16 * u + d)) stk)"
| "step (Reading (InNumber ns digits) stk) c =
     (case num_step ns c of
        Some ns' \<Rightarrow> Reading (InNumber ns' (c # digits)) stk
      | None \<Rightarrow> if num_final ns then resume (finish (JNumber (rev digits)) stk) c else Failed)"
| "step (Reading (InLiteral rest v) stk) c =
     (case rest of
        [] \<Rightarrow> Failed
      | r # rs \<Rightarrow>
          if c \<noteq> r then Failed
          else if rs = [] then finish v stk
          else Reading (InLiteral rs v) stk)"
| "step (Done v) c = resume (Done v) c"
| "step Failed c = Failed"

fun end_of_input :: "pstate \<Rightarrow> json option" where
  "end_of_input (Done v) = Some v"
| "end_of_input (Reading (InNumber ns digits) []) =
     (if num_final ns then Some (JNumber (rev digits)) else None)"
| "end_of_input _ = None"

definition parse_json :: "string \<Rightarrow> json option" where
  "parse_json s = end_of_input (foldl step (Reading ExpectValue []) s)"

text \<open>The value a consumer finds under a key of the report.\<close>

definition json_field :: "string \<Rightarrow> json \<Rightarrow> json option" where
  "json_field key v = (case v of JObject kvs \<Rightarrow> map_of kvs key | _ \<Rightarrow> None)"

subsection \<open>HandleException and HandleExceptionMessage\<close>

text \<open>
  An exception value is \<^verbatim>\<open>undefined\<close>, \<^verbatim>\<open>null\<close>, or any other value of the engine
  (of a type \<open>'a\<close> that is left open). \<^verbatim>\<open>IsNullOrUndefined\<close> tells the first two
  from the rest.
\<close>

datatype 'a Value = Undefined | Null | Other 'a

fun IsNullOrUndefined :: "'a Value \<Rightarrow> bool" where
  "IsNullOrUndefined Undefined = True"
| "IsNullOrUndefined Null = True"
| "IsNullOrUndefined (Other v) = False"

text \<open>
  The two engine functions the dispatcher calls on exception values:
  \<^verbatim>\<open>v8::Exception::Error(v8_str(text))\<close>, which makes an error object, and
  \<^verbatim>\<open>v8::Exception::CreateMessage(isolate, exception)\<close>.
\<close>

record 'a Engine =
  Exception_Error :: "string \<Rightarrow> 'a"
  Exception_CreateMessage :: "'a Value \<Rightarrow> Message"

text \<open>
  \<open>deno_isolate\<close> is \<^verbatim>\<open>DenoIsolate::FromIsolate(isolate)\<close>, \<open>None\<close> for a null pointer.
\<close>

text \<open>The field \<^verbatim>\<open>last_exception_\<close> of the source, without the trailing underscore.\<close>

record DenoIsolate =
  last_exception :: string

record Isolate =
  execution_terminating :: bool
  deno_isolate :: "DenoIsolate option"

text \<open>
  Modelled from the spec: the engine's termination control
  (\<^verbatim>\<open>IsExecutionTerminating\<close>, \<^verbatim>\<open>CancelTerminateExecution\<close>,
  \<^verbatim>\<open>TerminateExecution\<close>) is not in the source file. The spec describes it as one
  boolean condition of the execution context, "engine is terminating", with a
  query, a cancel and a re-assert.
\<close>

definition IsExecutionTerminating :: "Isolate \<Rightarrow> bool" where
  "IsExecutionTerminating isolate = execution_terminating isolate"

definition CancelTerminateExecution :: "Isolate \<Rightarrow> Isolate" where
  "CancelTerminateExecution isolate = isolate\<lparr>execution_terminating := False\<rparr>"

definition TerminateExecution :: "Isolate \<Rightarrow> Isolate" where
  "TerminateExecution isolate = isolate\<lparr>execution_terminating := True\<rparr>"

definition EncodeExceptionAsJSON :: "'a Engine \<Rightarrow> 'a Value \<Rightarrow> error + string" where
  "EncodeExceptionAsJSON engine exception =
     EncodeMessageAsJSON (Exception_CreateMessage engine exception)"

function HandleException :: "'a Engine \<Rightarrow> 'a Value \<Rightarrow> Isolate \<Rightarrow> error + Isolate" where
  "HandleException engine exception isolate =
     (if IsExecutionTerminating isolate then
        and_then
          (HandleException engine
             (if IsNullOrUndefined exception
              then Other (Exception_Error engine ''execution terminated'')
              else exception)
             (CancelTerminateExecution isolate))
          (\<lambda>isolate. Inr (TerminateExecution isolate))
      else
        and_then (EncodeExceptionAsJSON engine exception) (\<lambda>json_str.
          case deno_isolate isolate of
            None \<Rightarrow> Inl CheckNotNull
          | Some d \<Rightarrow> Inr (isolate\<lparr>deno_isolate := Some (d\<lparr>last_exception := json_str\<rparr>)\<rparr>)))"
  by pat_completeness auto
termination
  by (relation "measure (\<lambda>(engine, exception, isolate). if execution_terminating isolate then 1 else 0)")
     (auto simp: IsExecutionTerminating_def CancelTerminateExecution_def)

declare HandleException.simps [simp del]

definition HandleExceptionMessage :: "'a Engine \<Rightarrow> Message \<Rightarrow> Isolate \<Rightarrow> error + Isolate" where
  "HandleExceptionMessage engine message isolate =
     (if IsExecutionTerminating isolate then HandleException engine Undefined isolate
      else
        and_then (EncodeMessageAsJSON message) (\<lambda>json_str.
          case deno_isolate isolate of
            None \<Rightarrow> Inl CheckNotNull
          | Some d \<Rightarrow> Inr (isolate\<lparr>deno_isolate := Some (d\<lparr>last_exception := json_str\<rparr>)\<rparr>)))"

text \<open>The report the host reads back: the content of the slot, if there is one.\<close>

definition slot_content :: "Isolate \<Rightarrow> string option" where
  "slot_content isolate = map_option last_exception (deno_isolate isolate)"

subsection \<open>Concrete messages, engines and isolates\<close>

text \<open>
  The message of an uncaught \<^verbatim>\<open>throw Error("boo")\<close> on line 1 of \<^verbatim>\<open>a.js\<close>, with a
  captured trace of one frame. Its source line holds two double quotes.
\<close>

definition boo_frame :: StackFrame where
  "boo_frame =
     \<lparr>GetFunctionName = ''f'', Frame_GetLineNumber = 1, GetColumn = 7, IsEval = False,
      IsConstructor = False, IsWasm = False, GetScriptNameOrSourceURL = Some ''a.js''\<rparr>"

definition boo_message :: Message where
  \<open>boo_message =
     \<lparr>Get = ''Uncaught Error: boo'',
      GetScriptResourceName = ''a.js'',
      Stringify_ScriptResourceName = Some ''"a.js"'',
      GetStartPosition = 6, GetEndPosition = 18, ErrorLevel = 8,
      IsSharedCrossOrigin = False, IsOpaque = False,
      GetSourceLine = Some ''throw Error("boo")'',
      GetLineNumber = Some 1, GetStartColumn = Some 6, GetEndColumn = Some 18,
      GetStackTrace = Some [boo_frame]\<rparr>\<close>

text \<open>A message without a trace, as for an error found while compiling \<^verbatim>\<open>a.js\<close>.\<close>

definition compile_error_message :: Message where
  "compile_error_message =
     boo_message\<lparr>Get := ''Uncaught SyntaxError: Unexpected end of input'', GetStackTrace := None\<rparr>"

text \<open>No trace, and a line number the engine could not resolve.\<close>

definition unresolved_line_message :: Message where
  "unresolved_line_message = boo_message\<lparr>GetLineNumber := None, GetStackTrace := None\<rparr>"

text \<open>
  No trace, line 3 and column 5 resolved, and a script without a resource name:
  the name is \<^verbatim>\<open>undefined\<close>, which \<^verbatim>\<open>JSON::Stringify\<close> renders as the text
  \<^verbatim>\<open>undefined\<close>.
\<close>

definition anonymous_message :: Message where
  "anonymous_message =
     boo_message\<lparr>GetScriptResourceName := ''undefined'',
       Stringify_ScriptResourceName := Some ''undefined'',
       GetLineNumber := Some 3, GetStartColumn := Some 5, GetStackTrace := None\<rparr>"

text \<open>The message of an uncaught \<^verbatim>\<open>throw Error('say "boo"')\<close>.\<close>

definition quoted_message :: Message where
  \<open>quoted_message = boo_message\<lparr>Get := ''Uncaught Error: say "boo"''\<rparr>\<close>

text \<open>A trace that was captured with no frame on the stack.\<close>

definition empty_trace_message :: Message where
  "empty_trace_message = boo_message\<lparr>GetStackTrace := Some []\<rparr>"

text \<open>Line number unresolved, start column resolved, trace present.\<close>

definition no_line_message :: Message where
  "no_line_message = boo_message\<lparr>GetLineNumber := None\<rparr>"

text \<open>
  An engine whose values other than \<^verbatim>\<open>undefined\<close> and \<^verbatim>\<open>null\<close> are known by their
  text. \<^verbatim>\<open>Exception::Error(text)\<close> is the error object that prints as
  \<^verbatim>\<open>Error: text\<close>, and the message made for an exception reads \<^verbatim>\<open>Uncaught\<close>
  followed by the text of the exception, which is how V8 words the message of an
  uncaught exception.
\<close>

definition uncaught_message :: "string \<Rightarrow> Message" where
  "uncaught_message text =
     \<lparr>Get = ''Uncaught '' @ text,
      GetScriptResourceName = ''undefined'',
      Stringify_ScriptResourceName = Some ''undefined'',
      GetStartPosition = - 1, GetEndPosition = - 1, ErrorLevel = 8,
      IsSharedCrossOrigin = False, IsOpaque = False,
      GetSourceLine = None,
      GetLineNumber = Some 0, GetStartColumn = Some 0, GetEndColumn = Some 0,
      GetStackTrace = Some []\<rparr>"

definition uncaught_engine :: "string Engine" where
  "uncaught_engine =
     \<lparr>Exception_Error = (\<lambda>text. ''Error: '' @ text),
      Exception_CreateMessage =
        (\<lambda>exception. case exception of
           Undefined \<Rightarrow> uncaught_message ''undefined''
         | Null \<Rightarrow> uncaught_message ''null''
         | Other text \<Rightarrow> uncaught_message text)\<rparr>"

definition terminating_isolate :: Isolate where
  "terminating_isolate =
     \<lparr>execution_terminating = True, deno_isolate = Some \<lparr>last_exception = ''old report''\<rparr>\<rparr>"

definition running_isolate :: Isolate where
  "running_isolate =
     \<lparr>execution_terminating = False, deno_isolate = Some \<lparr>last_exception = ''old report''\<rparr>\<rparr>"

text \<open>The value under a key of the report that a call of a dispatcher left in the slot.\<close>

definition published_field :: "string \<Rightarrow> error + Isolate \<Rightarrow> json option" where
  "published_field key r =
     (case r of
        Inl e \<Rightarrow> None
      | Inr isolate \<Rightarrow>
          (case slot_content isolate of
             None \<Rightarrow> None
           | Some report \<Rightarrow>
               (case parse_json report of None \<Rightarrow> None | Some v \<Rightarrow> json_field key v)))"

text \<open>
  The exception a report is built from: the synthesized error when the engine is
  terminating and the value is null or undefined, the value itself otherwise.
\<close>

definition exception_reported :: "'a Engine \<Rightarrow> Isolate \<Rightarrow> 'a Value \<Rightarrow> 'a Value" where
  "exception_reported engine isolate exception =
     (if IsExecutionTerminating isolate \<and> IsNullOrUndefined exception
      then Other (Exception_Error engine ''execution terminated'')
      else exception)"

text \<open>Two exception events in a row on \<open>running_isolate\<close>, and the isolate after each.\<close>

definition after_first :: Isolate where
  "after_first =
     running_isolate\<lparr>deno_isolate :=
       Some \<lparr>last_exception = projr (EncodeMessageAsJSON (uncaught_message ''Error: first''))\<rparr>\<rparr>"

definition after_second :: Isolate where
  "after_second =
     running_isolate\<lparr>deno_isolate :=
       Some \<lparr>last_exception = projr (EncodeMessageAsJSON (uncaught_message ''Error: second''))\<rparr>\<rparr>"

text \<open>The value under a key of the report that \<open>EncodeMessageAsJSON\<close> returns.\<close>

definition encoded_field :: "string \<Rightarrow> Message \<Rightarrow> json option" where
  "encoded_field key message =
     (case EncodeMessageAsJSON message of
        Inl e \<Rightarrow> None
      | Inr report \<Rightarrow>
          (case parse_json report of None \<Rightarrow> None | Some v \<Rightarrow> json_field key v))"

subsection \<open>The report a message stands for\<close>

text \<open>
  A character that a JSON string holds as it is: not the double quote, not the
  backslash, not a control character. A text is plain when all its characters are.
\<close>

definition plain_char :: "char \<Rightarrow> bool" where
  "plain_char c = (c \<noteq> CHR 0x22 \<and> c \<noteq> CHR 0x5C \<and> \<not> (of_char c :: nat) < 32)"

definition plain_text :: "string \<Rightarrow> bool" where
  "plain_text s = list_all plain_char s"

text \<open>A text that is plain once its double quotes are escaped.\<close>

definition plain_but_quotes :: "string \<Rightarrow> bool" where
  "plain_but_quotes s = list_all (\<lambda>c. c = CHR 0x22 \<or> plain_char c) s"

definition script_name :: "StackFrame \<Rightarrow> string" where
  "script_name frame =
     (case GetScriptNameOrSourceURL frame of None \<Rightarrow> ''<unknown>'' | Some name \<Rightarrow> name)"

definition frame_plain :: "StackFrame \<Rightarrow> bool" where
  "frame_plain frame = (plain_text (GetFunctionName frame) \<and> plain_text (script_name frame))"

text \<open>
  The texts that the encoder copies from a message into the report need no escaping
  beyond the one the encoder does: the message text, the resource name and the names
  in the frames of the trace are plain, and the source line is plain but for double
  quotes. The text of \<^verbatim>\<open>JSON::Stringify\<close> is not among them: it is a JSON text
  already, and for a resource name that is a string it begins and ends with a double
  quote.
\<close>

definition texts_plain :: "Message \<Rightarrow> bool" where
  "texts_plain message =
     (plain_text (Get message) \<and>
      plain_text (GetScriptResourceName message) \<and>
      (case GetSourceLine message of None \<Rightarrow> True | Some l \<Rightarrow> plain_but_quotes l) \<and>
      (case GetStackTrace message of
         Some frames \<Rightarrow> list_all frame_plain frames
       | None \<Rightarrow> True))"

text \<open>
  The text of \<^verbatim>\<open>JSON::Stringify\<close> for the resource name is plain. It is so for a
  resource name that is undefined, null, a number or a truth value, and never for one
  that is a string.
\<close>

definition stringified_plain :: "Message \<Rightarrow> bool" where
  "stringified_plain message =
     (case Stringify_ScriptResourceName message of None \<Rightarrow> True | Some s \<Rightarrow> plain_text s)"

text \<open>The JSON values of the spec's data model: a stack frame, and the members of a report.\<close>

definition frame_value :: "StackFrame \<Rightarrow> json" where
  "frame_value frame =
     JObject
       [(''line'', JNumber (show_int (Frame_GetLineNumber frame))),
        (''column'', JNumber (show_int (GetColumn frame))),
        (''functionName'', JString (GetFunctionName frame)),
        (''scriptName'', JString (script_name frame)),
        (''isEval'', JBool (IsEval frame)),
        (''isConstructor'', JBool (IsConstructor frame)),
        (''isWasm'', JBool (IsWasm frame))]"

definition required_members :: "Message \<Rightarrow> (string \<times> json) list" where
  "required_members message =
     [(''message'', JString (Get message)),
      (''scriptResourceName'', JString (GetScriptResourceName message)),
      (''startPosition'', JNumber (show_int (GetStartPosition message))),
      (''endPosition'', JNumber (show_int (GetEndPosition message))),
      (''errorLevel'', JNumber (show_int (ErrorLevel message))),
      (''isSharedCrossOrigin'', JBool (IsSharedCrossOrigin message)),
      (''isOpaque'', JBool (IsOpaque message))]"

definition optional_number :: "string \<Rightarrow> int option \<Rightarrow> (string \<times> json) list" where
  "optional_number key maybe =
     (case maybe of None \<Rightarrow> [] | Some n \<Rightarrow> [(key, JNumber (show_int n))])"

definition optional_members :: "Message \<Rightarrow> (string \<times> json) list" where
  "optional_members message =
     (case GetSourceLine message of None \<Rightarrow> [] | Some l \<Rightarrow> [(''sourceLine'', JString l)]) @
     optional_number ''lineNumber'' (GetLineNumber message) @
     optional_number ''startColumn'' (GetStartColumn message) @
     optional_number ''endColumn'' (GetEndColumn message)"

section \<open>Properties\<close>

subsection \<open>ReplaceAll returns, and what it returns\<close>

lemma replace_short: "length s < length from \<Longrightarrow> replace_occurrences from to s = s"
proof (induction s)
  case Nil
  then show ?case by (simp add: replace_occurrences.simps)
next
  case (Cons c cs)
  then show ?case by (subst replace_occurrences.simps) auto
qed

lemma find_None:
  "str_find str from pos = None \<Longrightarrow> from \<noteq> [] \<Longrightarrow>
   replace_occurrences from to (drop pos str) = drop pos str"
proof (induction str "from" pos rule: str_find.induct)
  case (1 str "from" pos)
  show ?case
  proof (cases "length str < pos + length from")
    case True
    with "1.prems" have "length (drop pos str) < length from"
      by (cases "from") auto
    then show ?thesis by (rule replace_short)
  next
    case False
    with "1.prems" have nm: "take (length from) (drop pos str) \<noteq> from"
      and nx: "str_find str from (Suc pos) = None"
      by (auto simp: str_find.simps [of str "from" pos] split: if_splits)
    from False "1.prems" have lt: "pos < length str" by (cases "from") auto
    have ih: "replace_occurrences from to (drop (Suc pos) str) = drop (Suc pos) str"
      using "1.IH" False nm nx "1.prems" by simp
    have d: "drop pos str = str ! pos # drop (Suc pos) str"
      using lt by (simp add: Cons_nth_drop_Suc)
    show ?thesis
      using nm ih by (subst replace_occurrences.simps) (simp add: d)
  qed
qed

lemma find_Some:
  "str_find str from pos = Some p \<Longrightarrow> from \<noteq> [] \<Longrightarrow>
   pos \<le> p \<and> p + length from \<le> length str \<and>
   replace_occurrences from to (drop pos str) =
     take (p - pos) (drop pos str) @ to @ replace_occurrences from to (drop (p + length from) str)"
proof (induction str "from" pos rule: str_find.induct)
  case (1 str "from" pos)
  from "1.prems" have le: "pos + length from \<le> length str"
    by (auto simp: str_find.simps [of str "from" pos] split: if_splits)
  with "1.prems" have lt: "pos < length str" by (cases "from") auto
  show ?case
  proof (cases "take (length from) (drop pos str) = from")
    case True
    with "1.prems" le have p: "p = pos"
      by (auto simp: str_find.simps [of str "from" pos] split: if_splits)
    show ?thesis
      using True le lt "1.prems" unfolding p
      by (subst replace_occurrences.simps) (simp add: add.commute)
  next
    case False
    with "1.prems" le have nx: "str_find str from (Suc pos) = Some p"
      by (auto simp: str_find.simps [of str "from" pos] split: if_splits)
    have ih: "Suc pos \<le> p \<and> p + length from \<le> length str \<and>
      replace_occurrences from to (drop (Suc pos) str) =
        take (p - Suc pos) (drop (Suc pos) str) @ to @
        replace_occurrences from to (drop (p + length from) str)"
      using "1.IH" False nx "1.prems" le by simp
    have d: "drop pos str = str ! pos # drop (Suc pos) str"
      using lt by (simp add: Cons_nth_drop_Suc)
    from ih have sp: "p - pos = Suc (p - Suc pos)" by arith
    show ?thesis
      using False ih
      by (subst replace_occurrences.simps) (simp add: d sp)
  qed
qed

lemma ReplaceAll_loop_eq:
  "from \<noteq> [] \<Longrightarrow> pos \<le> length str \<Longrightarrow>
   ReplaceAll_loop str from to pos =
     Some (take pos str @ replace_occurrences from to (drop pos str))"
proof (induction "length str - pos" arbitrary: str pos rule: less_induct)
  case less
  show ?case
  proof (cases "str_find str from pos")
    case None
    then show ?thesis
      using less.prems by (subst ReplaceAll_loop.simps) (simp add: find_None)
  next
    case (Some p)
    from find_Some [OF Some less.prems(1), of to]
    have b: "pos \<le> p" "p + length from \<le> length str"
      and r: "replace_occurrences from to (drop pos str) =
        take (p - pos) (drop pos str) @ to @
        replace_occurrences from to (drop (p + length from) str)"
      by simp_all
    let ?str' = "str_replace str p (length from) to"
    have len: "length ?str' = p + length to + (length str - (p + length from))"
      using b by (simp add: str_replace_def)
    from less.prems(1) have pos_from: "0 < length from" by simp
    have dec: "length ?str' - (p + length to) < length str - pos"
      unfolding len using b pos_from by arith
    have "ReplaceAll_loop ?str' from to (p + length to) =
      Some (take (p + length to) ?str' @
            replace_occurrences from to (drop (p + length to) ?str'))"
      using less.hyps [OF dec less.prems(1)] len by simp
    moreover have "take (p + length to) ?str' = take p str @ to"
      using b by (simp add: str_replace_def)
    moreover have "drop (p + length to) ?str' = drop (p + length from) str"
      using b by (simp add: str_replace_def)
    moreover have "take p str = take pos str @ take (p - pos) (drop pos str)"
      using b by (metis le_add_diff_inverse take_add)
    ultimately show ?thesis
      using Some r by (subst ReplaceAll_loop.simps) simp
  qed
qed

lemma ReplaceAll_eq:
  "from \<noteq> [] \<Longrightarrow> ReplaceAll str from to = Some (replace_occurrences from to str)"
  by (simp add: ReplaceAll_def ReplaceAll_loop_eq)

lemma replace_quote_eq:
  "replace_occurrences [CHR 0x22] [CHR 0x5C, CHR 0x22] s = concat (map escape_char s)"
proof (induction s)
  case Nil
  show ?case by (simp add: replace_occurrences.simps)
next
  case (Cons c cs)
  have "replace_occurrences [CHR 0x22] [CHR 0x5C, CHR 0x22] (c # cs) =
        escape_char c @ replace_occurrences [CHR 0x22] [CHR 0x5C, CHR 0x22] cs"
    by (subst replace_occurrences.simps) (simp add: escape_char_def)
  with Cons show ?case by simp
qed

lemma EscapeString_eq: "EscapeString str = Some (concat (map escape_char str))"
  by (simp add: EscapeString_def ReplaceAll_eq replace_quote_eq)

text \<open>With an empty \<open>from\<close> the loop does not return.\<close>

lemma find_empty: "pos \<le> length str \<Longrightarrow> str_find str [] pos = Some pos"
  by (subst str_find.simps) simp

lemma ReplaceAll_loop_empty_from:
  assumes "ReplaceAll_loop str from to pos = Some r"
  shows "\<not> (from = [] \<and> pos \<le> length str)"
proof (rule ReplaceAll_loop.raw_induct
    [where P = "\<lambda>s f t p y. \<not> (f = [] \<and> p \<le> length s)", OF _ assms])
  fix loop :: "string \<Rightarrow> string \<Rightarrow> string \<Rightarrow> nat \<Rightarrow> string option"
    and s f t p y
  assume ih: "\<And>s f t p y. loop s f t p = Some y \<Longrightarrow> \<not> (f = [] \<and> p \<le> length s)"
    and body: "(case str_find s f p of
                  None \<Rightarrow> Some s
                | Some q \<Rightarrow> loop (str_replace s q (length f) t) f t (q + length t)) = Some y"
  show "\<not> (f = [] \<and> p \<le> length s)"
  proof
    assume a: "f = [] \<and> p \<le> length s"
    then have "str_find s f p = Some p" by (simp add: find_empty)
    with body have "loop (str_replace s p (length f) t) f t (p + length t) = Some y"
      by simp
    from ih [OF this] a show False
      by (simp add: str_replace_def)
  qed
qed

lemma ReplaceAll_empty_from: "ReplaceAll str [] to = None"
proof (cases "ReplaceAll str [] to")
  case None
  then show ?thesis .
next
  case (Some r)
  then have "ReplaceAll_loop str [] to 0 = Some r" by (simp add: ReplaceAll_def)
  from ReplaceAll_loop_empty_from [OF this] show ?thesis by simp
qed

text \<open>
  C10. For a non-empty \<open>from\<close>, \<open>ReplaceAll\<close> returns (also when \<open>to\<close> contains
  \<open>from\<close>), and its result is the input with every left-to-right non-overlapping
  occurrence of \<open>from\<close> replaced by \<open>to\<close>; so \<open>EscapeString\<close> returns its input with
  each double quote replaced by backslash, double quote and every other character
  unchanged.
\<close>

theorem ReplaceAll_returns_replaced:
  "(from \<noteq> [] \<longrightarrow> ReplaceAll str from to = Some (replace_occurrences from to str)) \<and>
   EscapeString s =
     Some (concat (map (\<lambda>c. if c = CHR 0x22 then [CHR 0x5C, CHR 0x22] else [c]) s))"
proof -
  have "escape_char = (\<lambda>c. if c = CHR 0x22 then [CHR 0x5C, CHR 0x22] else [c])"
    by (rule ext) (simp add: escape_char_def)
  then show ?thesis
    using EscapeString_eq [of s] by (simp add: ReplaceAll_eq)
qed

theorem ReplaceAll_returns_replaced_witness:
  "[CHR 0x22] \<noteq> [] \<and>
   ReplaceAll [CHR ''a'', CHR 0x22, CHR 0x22, CHR ''b''] [CHR 0x22] [CHR 0x5C, CHR 0x22] =
     Some [CHR ''a'', CHR 0x5C, CHR 0x22, CHR 0x5C, CHR 0x22, CHR ''b''] \<and>
   EscapeString [CHR 0x22, CHR ''x''] = Some [CHR 0x5C, CHR 0x22, CHR ''x'']"
proof -
  have r: "replace_occurrences [CHR 0x22] [CHR 0x5C, CHR 0x22]
             [CHR ''a'', CHR 0x22, CHR 0x22, CHR ''b''] =
           [CHR ''a'', CHR 0x5C, CHR 0x22, CHR 0x5C, CHR 0x22, CHR ''b'']"
    by (simp add: replace_quote_eq escape_char_def)
  show ?thesis
    using ReplaceAll_returns_replaced
      [of "[CHR 0x22]" "[CHR ''a'', CHR 0x22, CHR 0x22, CHR ''b'']" "[CHR 0x5C, CHR 0x22]"
          "[CHR 0x22, CHR ''x'']"]
    by (simp add: r)
qed
subsection \<open>The dispatchers\<close>

lemma HandleException_running:
  "\<not> IsExecutionTerminating isolate \<Longrightarrow>
   HandleException engine exception isolate =
     and_then (EncodeExceptionAsJSON engine exception) (\<lambda>json_str.
       case deno_isolate isolate of
         None \<Rightarrow> Inl CheckNotNull
       | Some d \<Rightarrow> Inr (isolate\<lparr>deno_isolate := Some (d\<lparr>last_exception := json_str\<rparr>)\<rparr>))"
  by (subst HandleException.simps) simp

lemma HandleException_unfold_terminating:
  "IsExecutionTerminating isolate \<Longrightarrow>
   HandleException engine exception isolate =
     and_then
       (HandleException engine
          (if IsNullOrUndefined exception
           then Other (Exception_Error engine ''execution terminated'')
           else exception)
          (CancelTerminateExecution isolate))
       (\<lambda>isolate. Inr (TerminateExecution isolate))"
  by (subst HandleException.simps) simp

lemma cancel_not_terminating: "\<not> IsExecutionTerminating (CancelTerminateExecution isolate)"
  by (simp add: IsExecutionTerminating_def CancelTerminateExecution_def)

lemma rearm_after_publish:
  "IsExecutionTerminating isolate \<Longrightarrow>
   TerminateExecution ((CancelTerminateExecution isolate)\<lparr>deno_isolate := x\<rparr>) =
     isolate\<lparr>deno_isolate := x\<rparr>"
  by (cases isolate)
     (simp add: IsExecutionTerminating_def TerminateExecution_def CancelTerminateExecution_def)

lemma HandleException_terminating_eq:
  assumes "IsExecutionTerminating isolate"
  shows "HandleException engine exception isolate =
     and_then
       (EncodeExceptionAsJSON engine
          (if IsNullOrUndefined exception
           then Other (Exception_Error engine ''execution terminated'')
           else exception))
       (\<lambda>json_str.
          case deno_isolate isolate of
            None \<Rightarrow> Inl CheckNotNull
          | Some d \<Rightarrow> Inr (isolate\<lparr>deno_isolate := Some (d\<lparr>last_exception := json_str\<rparr>)\<rparr>))"
proof -
  have d: "deno_isolate (CancelTerminateExecution isolate) = deno_isolate isolate"
    by (simp add: CancelTerminateExecution_def)
  show ?thesis
    unfolding HandleException_unfold_terminating [OF assms]
      HandleException_running [OF cancel_not_terminating]
    by (simp add: and_then_def d rearm_after_publish [OF assms]
          split: sum.splits option.splits)
qed

lemma message_leads_report:
  assumes "EncodeMessageAsJSON message = Inr out"
  shows \<open>\<exists>rest. out = ''{    "message": "'' @ Get message @ ''",'' @ rest\<close>
  using assms
  by (auto simp: EncodeMessageAsJSON_def and_then_def split: sum.splits)

text \<open>
  C2, as amended. For a call of \<open>HandleException\<close> while the engine is terminating:
  the signal is cancelled first, so the recursive call runs on an isolate that is not
  terminating and is the plain encode-and-publish body (no further recursion); a null
  or undefined value is replaced by the synthesized error with the text
  "execution terminated", any other value is kept; and when the call returns, the
  isolate is terminating again and the slot holds the serialization of the message
  the engine made for that value. The report starts with the message text the engine
  gave it: nothing in the code makes that text equal to "execution terminated".
\<close>

theorem HandleException_while_terminating:
  assumes "IsExecutionTerminating isolate"
  shows
    "\<not> IsExecutionTerminating (CancelTerminateExecution isolate) \<and>
     HandleException engine exception isolate =
       and_then
         (HandleException engine (exception_reported engine isolate exception)
            (CancelTerminateExecution isolate))
         (\<lambda>isolate. Inr (TerminateExecution isolate)) \<and>
     HandleException engine (exception_reported engine isolate exception)
         (CancelTerminateExecution isolate) =
       and_then
         (EncodeExceptionAsJSON engine (exception_reported engine isolate exception))
         (\<lambda>json_str.
            case deno_isolate (CancelTerminateExecution isolate) of
              None \<Rightarrow> Inl CheckNotNull
            | Some d \<Rightarrow>
                Inr ((CancelTerminateExecution isolate)
                       \<lparr>deno_isolate := Some (d\<lparr>last_exception := json_str\<rparr>)\<rparr>)) \<and>
     (\<forall>isolate'. HandleException engine exception isolate = Inr isolate' \<longrightarrow>
        IsExecutionTerminating isolate' \<and>
        (\<exists>json_str rest.
           EncodeMessageAsJSON
             (Exception_CreateMessage engine (exception_reported engine isolate exception)) =
             Inr json_str \<and>
           slot_content isolate' = Some json_str \<and>
           json_str =
             [CHR ''{'', CHR '' '', CHR '' '', CHR '' '', CHR '' '', CHR 0x22] @ ''message'' @
             [CHR 0x22, CHR '':'', CHR '' '', CHR 0x22] @
             Get (Exception_CreateMessage engine (exception_reported engine isolate exception)) @
             [CHR 0x22, CHR '',''] @ rest))"
proof -
  let ?v = "exception_reported engine isolate exception"
  have v: "?v = (if IsNullOrUndefined exception
                 then Other (Exception_Error engine ''execution terminated'')
                 else exception)"
    using assms by (simp add: exception_reported_def)
  have a: "\<not> IsExecutionTerminating (CancelTerminateExecution isolate)"
    by (rule cancel_not_terminating)
  have b: "HandleException engine exception isolate =
       and_then (HandleException engine ?v (CancelTerminateExecution isolate))
         (\<lambda>isolate. Inr (TerminateExecution isolate))"
    unfolding v by (rule HandleException_unfold_terminating [OF assms])
  have c: "HandleException engine ?v (CancelTerminateExecution isolate) =
       and_then (EncodeExceptionAsJSON engine ?v)
         (\<lambda>json_str.
            case deno_isolate (CancelTerminateExecution isolate) of
              None \<Rightarrow> Inl CheckNotNull
            | Some d \<Rightarrow>
                Inr ((CancelTerminateExecution isolate)
                       \<lparr>deno_isolate := Some (d\<lparr>last_exception := json_str\<rparr>)\<rparr>))"
    by (rule HandleException_running [OF a])
  have d: "IsExecutionTerminating isolate' \<and>
        (\<exists>json_str rest.
           EncodeMessageAsJSON (Exception_CreateMessage engine ?v) = Inr json_str \<and>
           slot_content isolate' = Some json_str \<and>
           json_str =
             [CHR ''{'', CHR '' '', CHR '' '', CHR '' '', CHR '' '', CHR 0x22] @ ''message'' @
             [CHR 0x22, CHR '':'', CHR '' '', CHR 0x22] @
             Get (Exception_CreateMessage engine ?v) @ [CHR 0x22, CHR '',''] @ rest)"
    if r: "HandleException engine exception isolate = Inr isolate'" for isolate'
  proof -
    from r obtain json_str d where
      e: "EncodeMessageAsJSON (Exception_CreateMessage engine ?v) = Inr json_str"
      and i: "isolate' = isolate\<lparr>deno_isolate := Some (d\<lparr>last_exception := json_str\<rparr>)\<rparr>"
      unfolding HandleException_terminating_eq [OF assms] v [symmetric]
      by (auto simp: and_then_def EncodeExceptionAsJSON_def split: sum.splits option.splits)
    from message_leads_report [OF e] obtain rest where
      \<open>json_str = ''{    "message": "'' @ Get (Exception_CreateMessage engine ?v) @ ''",'' @ rest\<close>
      by blast
    then have "json_str =
             [CHR ''{'', CHR '' '', CHR '' '', CHR '' '', CHR '' '', CHR 0x22] @ ''message'' @
             [CHR 0x22, CHR '':'', CHR '' '', CHR 0x22] @
             Get (Exception_CreateMessage engine ?v) @ [CHR 0x22, CHR '',''] @ rest"
      by simp
    with e i assms show ?thesis
      by (auto simp: slot_content_def IsExecutionTerminating_def)
  qed
  from a b c d show ?thesis by blast
qed

lemma terminated_report_published:
  "HandleException uncaught_engine Undefined terminating_isolate =
     Inr (terminating_isolate\<lparr>deno_isolate :=
       Some \<lparr>last_exception =
         projr (EncodeMessageAsJSON (uncaught_message ''Error: execution terminated''))\<rparr>\<rparr>)"
  by code_simp

theorem HandleException_while_terminating_witness:
  "IsExecutionTerminating terminating_isolate \<and>
   IsExecutionTerminating
     (terminating_isolate\<lparr>deno_isolate :=
        Some \<lparr>last_exception =
          projr (EncodeMessageAsJSON (uncaught_message ''Error: execution terminated''))\<rparr>\<rparr>) \<and>
   HandleException uncaught_engine Undefined terminating_isolate =
     and_then
       (HandleException uncaught_engine (Other ''Error: execution terminated'')
          (CancelTerminateExecution terminating_isolate))
       (\<lambda>isolate. Inr (TerminateExecution isolate))"
proof -
  have t: "IsExecutionTerminating terminating_isolate"
    by (simp add: IsExecutionTerminating_def terminating_isolate_def)
  have v: "exception_reported uncaught_engine terminating_isolate Undefined =
           Other ''Error: execution terminated''"
    using t by (simp add: exception_reported_def uncaught_engine_def)
  show ?thesis
    using HandleException_while_terminating [OF t, of uncaught_engine Undefined]
      terminated_report_published t
    by (simp add: v)
qed

text \<open>
  C2, the claim as it stands: with an engine that words the message of an uncaught
  exception as V8 does, the report published for an undefined value while terminating
  has the message "Uncaught Error: execution terminated", which is not the fixed text.
\<close>

theorem terminated_message_counterexample:
  "IsExecutionTerminating terminating_isolate \<and>
   published_field ''message''
     (HandleException uncaught_engine Undefined terminating_isolate) =
     Some (JString ''Uncaught Error: execution terminated'') \<and>
   published_field ''message''
     (HandleException uncaught_engine Undefined terminating_isolate) \<noteq>
     Some (JString ''execution terminated'')"
  by code_simp

text \<open>
  C8. While the engine is terminating, \<open>HandleExceptionMessage\<close> is
  \<open>HandleException\<close> on the undefined value: what it publishes is the report of the
  synthesized "execution terminated" error, and the message it was given has no part
  in the result.
\<close>

theorem HandleExceptionMessage_while_terminating:
  assumes "IsExecutionTerminating isolate"
  shows
    "HandleExceptionMessage engine message isolate =
       HandleException engine Undefined isolate \<and>
     HandleExceptionMessage engine message isolate =
       and_then
         (EncodeMessageAsJSON
            (Exception_CreateMessage engine
               (Other (Exception_Error engine ''execution terminated''))))
         (\<lambda>json_str.
            case deno_isolate isolate of
              None \<Rightarrow> Inl CheckNotNull
            | Some d \<Rightarrow> Inr (isolate\<lparr>deno_isolate := Some (d\<lparr>last_exception := json_str\<rparr>)\<rparr>)) \<and>
     HandleExceptionMessage engine message isolate =
       HandleExceptionMessage engine message' isolate"
  using assms
  by (simp add: HandleExceptionMessage_def HandleException_terminating_eq
        EncodeExceptionAsJSON_def)

theorem HandleExceptionMessage_while_terminating_witness:
  "IsExecutionTerminating terminating_isolate \<and>
   HandleExceptionMessage uncaught_engine boo_message terminating_isolate =
     HandleException uncaught_engine Undefined terminating_isolate \<and>
   HandleExceptionMessage uncaught_engine boo_message terminating_isolate =
     HandleExceptionMessage uncaught_engine quoted_message terminating_isolate"
proof -
  have t: "IsExecutionTerminating terminating_isolate"
    by (simp add: IsExecutionTerminating_def terminating_isolate_def)
  show ?thesis
    using HandleExceptionMessage_while_terminating
      [OF t, of uncaught_engine boo_message quoted_message] t
    by blast
qed

text \<open>
  C9. A call of \<open>HandleException\<close> or \<open>HandleExceptionMessage\<close> that returns leaves the
  isolate as it was but for the slot, which holds the report serialized in this call,
  whatever it held before; so after two events in a row the slot holds the second
  report.
\<close>

theorem slot_overwritten:
  "(HandleException engine exception isolate = Inr isolate' \<longrightarrow>
      (\<exists>json_str d.
         EncodeExceptionAsJSON engine (exception_reported engine isolate exception) =
           Inr json_str \<and>
         deno_isolate isolate = Some d \<and>
         isolate' = isolate\<lparr>deno_isolate := Some (d\<lparr>last_exception := json_str\<rparr>)\<rparr> \<and>
         slot_content isolate' = Some json_str)) \<and>
   (HandleExceptionMessage engine message isolate = Inr isolate' \<longrightarrow>
      (\<exists>json_str d.
         (if IsExecutionTerminating isolate
          then EncodeExceptionAsJSON engine
                 (Other (Exception_Error engine ''execution terminated''))
          else EncodeMessageAsJSON message) = Inr json_str \<and>
         deno_isolate isolate = Some d \<and>
         isolate' = isolate\<lparr>deno_isolate := Some (d\<lparr>last_exception := json_str\<rparr>)\<rparr> \<and>
         slot_content isolate' = Some json_str)) \<and>
   ((HandleException engine exception isolate = Inr isolate' \<or>
     HandleExceptionMessage engine message isolate = Inr isolate') \<and>
    HandleException engine exception2 isolate' = Inr isolate'' \<longrightarrow>
      (\<exists>json_str.
         EncodeExceptionAsJSON engine (exception_reported engine isolate' exception2) =
           Inr json_str \<and>
         slot_content isolate'' = Some json_str)) \<and>
   ((HandleException engine exception isolate = Inr isolate' \<or>
     HandleExceptionMessage engine message isolate = Inr isolate') \<and>
    HandleExceptionMessage engine message2 isolate' = Inr isolate'' \<longrightarrow>
      (\<exists>json_str.
         (if IsExecutionTerminating isolate'
          then EncodeExceptionAsJSON engine
                 (Other (Exception_Error engine ''execution terminated''))
          else EncodeMessageAsJSON message2) = Inr json_str \<and>
         slot_content isolate'' = Some json_str))"
proof -
  have h: "\<exists>json_str d.
         EncodeExceptionAsJSON engine (exception_reported engine i e) = Inr json_str \<and>
         deno_isolate i = Some d \<and>
         i' = i\<lparr>deno_isolate := Some (d\<lparr>last_exception := json_str\<rparr>)\<rparr> \<and>
         slot_content i' = Some json_str"
    if r: "HandleException engine e i = Inr i'" for e i i'
  proof (cases "IsExecutionTerminating i")
    case True
    from r show ?thesis
      unfolding HandleException_terminating_eq [OF True]
      by (auto simp: and_then_def exception_reported_def True slot_content_def
            split: sum.splits option.splits)
  next
    case False
    from r show ?thesis
      unfolding HandleException_running [OF False]
      by (auto simp: and_then_def exception_reported_def False slot_content_def
            split: sum.splits option.splits)
  qed
  have m: "\<exists>json_str d.
         (if IsExecutionTerminating i
          then EncodeExceptionAsJSON engine
                 (Other (Exception_Error engine ''execution terminated''))
          else EncodeMessageAsJSON msg) = Inr json_str \<and>
         deno_isolate i = Some d \<and>
         i' = i\<lparr>deno_isolate := Some (d\<lparr>last_exception := json_str\<rparr>)\<rparr> \<and>
         slot_content i' = Some json_str"
    if r: "HandleExceptionMessage engine msg i = Inr i'" for msg i i'
  proof (cases "IsExecutionTerminating i")
    case True
    with r have "HandleException engine Undefined i = Inr i'"
      by (simp add: HandleExceptionMessage_def)
    from h [OF this] True show ?thesis
      by (simp add: exception_reported_def)
  next
    case False
    with r show ?thesis
      by (auto simp: HandleExceptionMessage_def and_then_def slot_content_def
            split: sum.splits option.splits)
  qed
  have h2: "\<exists>json_str.
         EncodeExceptionAsJSON engine (exception_reported engine i e) = Inr json_str \<and>
         slot_content i' = Some json_str"
    if "HandleException engine e i = Inr i'" for e i i'
    using h [OF that] by blast
  have m2: "\<exists>json_str.
         (if IsExecutionTerminating i
          then EncodeExceptionAsJSON engine
                 (Other (Exception_Error engine ''execution terminated''))
          else EncodeMessageAsJSON msg) = Inr json_str \<and>
         slot_content i' = Some json_str"
    if "HandleExceptionMessage engine msg i = Inr i'" for msg i i'
    using m [OF that] by blast
  show ?thesis
  proof (intro conjI impI)
    assume "HandleException engine exception isolate = Inr isolate'"
    then show "\<exists>json_str d.
         EncodeExceptionAsJSON engine (exception_reported engine isolate exception) =
           Inr json_str \<and>
         deno_isolate isolate = Some d \<and>
         isolate' = isolate\<lparr>deno_isolate := Some (d\<lparr>last_exception := json_str\<rparr>)\<rparr> \<and>
         slot_content isolate' = Some json_str"
      by (rule h)
  next
    assume "HandleExceptionMessage engine message isolate = Inr isolate'"
    then show "\<exists>json_str d.
         (if IsExecutionTerminating isolate
          then EncodeExceptionAsJSON engine
                 (Other (Exception_Error engine ''execution terminated''))
          else EncodeMessageAsJSON message) = Inr json_str \<and>
         deno_isolate isolate = Some d \<and>
         isolate' = isolate\<lparr>deno_isolate := Some (d\<lparr>last_exception := json_str\<rparr>)\<rparr> \<and>
         slot_content isolate' = Some json_str"
      by (rule m)
  next
    assume "(HandleException engine exception isolate = Inr isolate' \<or>
             HandleExceptionMessage engine message isolate = Inr isolate') \<and>
            HandleException engine exception2 isolate' = Inr isolate''"
    then have "HandleException engine exception2 isolate' = Inr isolate''" by simp
    then show "\<exists>json_str.
         EncodeExceptionAsJSON engine (exception_reported engine isolate' exception2) =
           Inr json_str \<and>
         slot_content isolate'' = Some json_str"
      by (rule h2)
  next
    assume "(HandleException engine exception isolate = Inr isolate' \<or>
             HandleExceptionMessage engine message isolate = Inr isolate') \<and>
            HandleExceptionMessage engine message2 isolate' = Inr isolate''"
    then have "HandleExceptionMessage engine message2 isolate' = Inr isolate''" by simp
    then show "\<exists>json_str.
         (if IsExecutionTerminating isolate'
          then EncodeExceptionAsJSON engine
                 (Other (Exception_Error engine ''execution terminated''))
          else EncodeMessageAsJSON message2) = Inr json_str \<and>
         slot_content isolate'' = Some json_str"
      by (rule m2)
  qed
qed

theorem slot_overwritten_witness:
  "HandleException uncaught_engine (Other ''Error: first'') running_isolate = Inr after_first \<and>
   HandleException uncaught_engine (Other ''Error: second'') after_first = Inr after_second \<and>
   HandleExceptionMessage uncaught_engine boo_message after_first =
     Inr (running_isolate\<lparr>deno_isolate :=
            Some \<lparr>last_exception = projr (EncodeMessageAsJSON boo_message)\<rparr>\<rparr>) \<and>
   slot_content after_second =
     Some (projr (EncodeMessageAsJSON (uncaught_message ''Error: second'')))"
proof -
  have a: "HandleException uncaught_engine (Other ''Error: first'') running_isolate =
           Inr after_first"
    by code_simp
  have b: "HandleException uncaught_engine (Other ''Error: second'') after_first =
           Inr after_second"
    by code_simp
  have c: "HandleExceptionMessage uncaught_engine boo_message after_first =
     Inr (running_isolate\<lparr>deno_isolate :=
            Some \<lparr>last_exception = projr (EncodeMessageAsJSON boo_message)\<rparr>\<rparr>)"
    by code_simp
  have d: "slot_content after_second =
     Some (projr (EncodeMessageAsJSON (uncaught_message ''Error: second'')))"
    by (simp add: slot_content_def after_second_def)
  show ?thesis
    using slot_overwritten
      [of uncaught_engine "Other ''Error: first''" running_isolate after_first
          boo_message "Other ''Error: second''" after_second boo_message]
      a b c d
    by simp
qed

subsection \<open>The encoder on concrete messages\<close>

text \<open>
  C1, at a failing input: for a message without a trace whose resource name is the
  string \<^verbatim>\<open>a.js\<close>, the encoder wraps the already quoted text of \<^verbatim>\<open>JSON::Stringify\<close>
  in a second pair of quotes, and what it returns is not a JSON text.
\<close>

theorem compile_error_report_unparseable:
  \<open>stack_trace_json compile_error_message = Inr ''[{"scriptName": ""a.js""    }]'' \<and>
   map_sum id parse_json (EncodeMessageAsJSON compile_error_message) = Inr None\<close>
  by code_simp

text \<open>
  C3, at a failing input: without a trace and with an unresolved line number the
  encoder calls \<open>FromJust\<close> on the empty value, and no report is built.
\<close>

theorem unresolved_line_aborts:
  "EncodeMessageAsJSON unresolved_line_message = Inl FromJustIsNothing"
  by code_simp

text \<open>
  C4, at a failing input: without a trace, with line 3 and column 5 resolved, the
  fallback frame holds neither \<open>line\<close> nor \<open>column\<close>.
\<close>

theorem fallback_frame_without_position:
  \<open>stack_trace_json anonymous_message = Inr ''[{"scriptName": "undefined"    }]'' \<and>
   encoded_field ''lineNumber'' anonymous_message = Some (JNumber ''3'') \<and>
   encoded_field ''startColumn'' anonymous_message = Some (JNumber ''5'') \<and>
   encoded_field ''frames'' anonymous_message =
     Some (JArray [JObject [(''scriptName'', JString ''undefined'')]])\<close>
  by code_simp

text \<open>
  C5, at a failing input: the double quotes of the message text reach the report as
  they are, and the report is not a JSON text.
\<close>

theorem quoted_message_unescaped:
  \<open>take 44 (projr (EncodeMessageAsJSON quoted_message)) =
     ''{    "message": "Uncaught Error: say "boo"",'' \<and>
   map_sum id parse_json (EncodeMessageAsJSON quoted_message) = Inr None\<close>
  by code_simp

text \<open>
  C6, the claim as it stands: a trace that is present and has no frame is written as
  the empty array.
\<close>

theorem empty_trace_counterexample:
  "GetStackTrace empty_trace_message = Some [] \<and>
   encoded_field ''frames'' empty_trace_message = Some (JArray [])"
  by code_simp

subsection \<open>The reader on the pieces the encoder writes\<close>

lemma read_plain:
  "plain_text s \<Longrightarrow>
   foldl step (Reading (InString k acc) stk) s = Reading (InString k (rev s @ acc)) stk"
  by (induction s arbitrary: acc) (auto simp: plain_text_def plain_char_def)

lemma read_escaped:
  "plain_but_quotes s \<Longrightarrow>
   foldl step (Reading (InString k acc) stk) (concat (map escape_char s)) =
     Reading (InString k (rev s @ acc)) stk"
  by (induction s arbitrary: acc)
     (auto simp: plain_but_quotes_def plain_char_def escape_char_def unescape_def)

lemma digit_not_special:
  assumes "is_digit c"
  shows "\<not> is_ws c" "c \<noteq> CHR 0x22" "c \<noteq> CHR ''-''" "c \<noteq> CHR '',''" "c \<noteq> CHR ''.''"
    "c \<noteq> CHR ''e''" "c \<noteq> CHR ''E''"
  using assms by (auto simp: is_digit_def is_ws_def)

lemma read_digits:
  "list_all is_digit ds \<Longrightarrow>
   foldl step (Reading (InNumber NInt acc) stk) ds = Reading (InNumber NInt (rev ds @ acc)) stk"
  by (induction ds arbitrary: acc) auto

lemma of_char_digit: "n < 10 \<Longrightarrow> (of_char (char_of (48 + n :: nat)) :: nat) = 48 + n"
  by simp

lemma is_digit_char_of: "n < 10 \<Longrightarrow> is_digit (char_of (48 + n :: nat))"
  by (simp add: is_digit_def)

lemma char_of_48: "char_of (48 :: nat) = CHR ''0''"
  by code_simp

lemma char_of_zero_iff: "n < 10 \<Longrightarrow> char_of (48 + n :: nat) = CHR ''0'' \<longleftrightarrow> n = 0"
proof
  assume n: "n < 10" and "char_of (48 + n) = CHR ''0''"
  then have "(of_char (char_of (48 + n)) :: nat) = of_char CHR ''0''" by simp
  with n show "n = 0" by simp
next
  assume "n = 0"
  then show "char_of (48 + n) = CHR ''0''" by (simp add: char_of_48)
qed

lemma show_nat_digits: "list_all is_digit (show_nat n)"
proof (induction n rule: show_nat.induct)
  case (1 n)
  show ?case
  proof (cases "n < 10")
    case True
    then show ?thesis by (subst show_nat.simps) (simp add: is_digit_char_of)
  next
    case False
    have "n mod 10 < 10" by simp
    then have "is_digit (char_of (48 + n mod 10))" by (rule is_digit_char_of)
    with False "1.IH" show ?thesis by (subst show_nat.simps) simp
  qed
qed

lemma show_nat_leading:
  "0 < n \<Longrightarrow> \<exists>d ds. show_nat n = d # ds \<and> is_digit d \<and> d \<noteq> CHR ''0'' \<and> list_all is_digit ds"
proof (induction n rule: show_nat.induct)
  case (1 n)
  show ?case
  proof (cases "n < 10")
    case True
    with "1.prems" have "char_of (48 + n) \<noteq> CHR ''0''"
      by (simp add: char_of_zero_iff)
    with True show ?thesis
      by (subst show_nat.simps) (simp add: is_digit_char_of)
  next
    case False
    then have "0 < n div 10" by simp
    with "1.IH" False obtain d ds where
      ds: "show_nat (n div 10) = d # ds" "is_digit d" "d \<noteq> CHR ''0''" "list_all is_digit ds"
      by blast
    have "n mod 10 < 10" by simp
    then have "is_digit (char_of (48 + n mod 10))" by (rule is_digit_char_of)
    with ds False show ?thesis by (subst show_nat.simps) simp
  qed
qed

lemma show_nat_0: "show_nat 0 = ''0''"
  by code_simp

text \<open>The numeral of an \<^verbatim>\<open>int\<close> is read as one JSON number.\<close>

lemma read_show_int:
  "foldl step (Reading ExpectValue stk) (show_int i) =
     Reading (InNumber (if i = 0 then NZero else NInt) (rev (show_int i))) stk"
proof -
  consider "i = 0" | "0 < i" | "i < 0" by linarith
  then show ?thesis
  proof cases
    case 1
    then show ?thesis
      by (simp add: show_int_def show_nat_0 is_ws_def start_value_def)
  next
    case 2
    then have "0 < nat i" by simp
    from show_nat_leading [OF this] obtain d ds where
      ds: "show_nat (nat i) = d # ds" "is_digit d" "d \<noteq> CHR ''0''" "list_all is_digit ds"
      by blast
    with 2 show ?thesis
      by (simp add: show_int_def start_value_def digit_not_special read_digits)
  next
    case 3
    then have "0 < nat (- i)" by simp
    from show_nat_leading [OF this] obtain d ds where
      ds: "show_nat (nat (- i)) = d # ds" "is_digit d" "d \<noteq> CHR ''0''" "list_all is_digit ds"
      by blast
    with 3 show ?thesis
      by (simp add: show_int_def start_value_def is_ws_def read_digits)
  qed
qed

lemma number_then_comma:
  "step (Reading (InNumber (if z then NZero else NInt) ds) stk) CHR '','' =
     resume (finish (JNumber (rev ds)) stk) CHR '',''"
  by (simp add: is_digit_def)

lemma read_show_bool:
  "foldl step (Reading ExpectValue stk) (show_bool b) = finish (JBool b) stk"
  by (simp add: show_bool_def is_ws_def is_digit_def start_value_def)

subsection \<open>Reading a report\<close>

lemmas reading = is_ws_def is_digit_def start_value_def read_plain read_show_int
  number_then_comma read_show_bool

lemma read_required:
  assumes "plain_text (Get m)" and "plain_text (GetScriptResourceName m)"
  shows
    \<open>foldl step (Reading ExpectValue [])
       (''{    "message": "'' @ Get m @
        ''",    "scriptResourceName": "'' @ GetScriptResourceName m @
        ''",    "startPosition": '' @ show_int (GetStartPosition m) @
        '',    "endPosition": '' @ show_int (GetEndPosition m) @
        '',    "errorLevel": '' @ show_int (ErrorLevel m) @
        '',    "isSharedCrossOrigin": '' @ show_bool (IsSharedCrossOrigin m) @
        '',    "isOpaque": '' @ show_bool (IsOpaque m) @ '','') =
     Reading ExpectKey [InObject (rev (required_members m)) None]\<close>
  using assms by (simp add: reading required_members_def)

lemma read_source_line:
  assumes "plain_but_quotes l"
  shows
    \<open>foldl step (Reading ExpectKey (InObject kvs None # stk))
       (''"sourceLine": "'' @ concat (map escape_char l) @ ''",'') =
     Reading ExpectKey (InObject ((''sourceLine'', JString l) # kvs) None # stk)\<close>
  using assms by (simp add: reading read_escaped)

lemma read_line_number:
  \<open>foldl step (Reading ExpectKey (InObject kvs None # stk))
     (''"lineNumber": '' @ show_int n @ '','') =
   Reading ExpectKey (InObject ((''lineNumber'', JNumber (show_int n)) # kvs) None # stk)\<close>
  by (simp add: reading)

lemma read_start_column:
  \<open>foldl step (Reading ExpectKey (InObject kvs None # stk))
     (''"startColumn": '' @ show_int n @ '','') =
   Reading ExpectKey (InObject ((''startColumn'', JNumber (show_int n)) # kvs) None # stk)\<close>
  by (simp add: reading)

lemma read_end_column:
  \<open>foldl step (Reading ExpectKey (InObject kvs None # stk))
     (''"endColumn": '' @ show_int n @ '','') =
   Reading ExpectKey (InObject ((''endColumn'', JNumber (show_int n)) # kvs) None # stk)\<close>
  by (simp add: reading)

lemma read_frame:
  assumes "frame_plain frame" and "mode = ExpectValue \<or> mode = ExpectValueOrClose"
  shows
    "foldl step (Reading mode (InArray xs # stk)) (frame_json frame) =
     Reading AfterValue (InArray (frame_value frame # xs) # stk)"
proof -
  from assms(1) have p: "plain_text (GetFunctionName frame)"
    "plain_text (case GetScriptNameOrSourceURL frame of None \<Rightarrow> ''<unknown>'' | Some name \<Rightarrow> name)"
    by (simp_all add: frame_plain_def script_name_def)
  from assms(2) show ?thesis
    using p by (auto simp: frame_json_def frame_value_def script_name_def reading)
qed

lemma read_frames:
  assumes "list_all frame_plain frames" and "frames \<noteq> []"
    and "mode = ExpectValue \<or> mode = ExpectValueOrClose"
  shows
    "foldl step (Reading mode (InArray xs # stk)) (frames_loop frames) =
     Reading AfterValue (InArray (rev (map frame_value frames) @ xs) # stk)"
  using assms
proof (induction frames arbitrary: xs mode)
  case Nil
  then show ?case by simp
next
  case (Cons frame frames)
  from Cons.prems have f: "frame_plain frame" and fs: "list_all frame_plain frames" by simp_all
  show ?case
  proof (cases "frames = []")
    case True
    with read_frame [OF f Cons.prems(3)] show ?thesis by simp
  next
    case False
    have "foldl step (Reading ExpectValue (InArray (frame_value frame # xs) # stk))
            (frames_loop frames) =
          Reading AfterValue
            (InArray (rev (map frame_value frames) @ frame_value frame # xs) # stk)"
      by (rule Cons.IH [OF fs False]) simp
    with False read_frame [OF f Cons.prems(3)] show ?thesis
      by (simp add: is_ws_def)
  qed
qed

lemma read_trace:
  assumes "list_all frame_plain frames"
  shows
    "foldl step (Reading ExpectValue stk) (''['' @ frames_loop frames @ '']'') =
     finish (JArray (map frame_value frames)) stk"
proof (cases "frames = []")
  case True
  then show ?thesis by (simp add: reading)
next
  case False
  have "foldl step (Reading ExpectValueOrClose (InArray [] # stk)) (frames_loop frames) =
        Reading AfterValue (InArray (rev (map frame_value frames) @ []) # stk)"
    by (rule read_frames [OF assms False]) simp
  then show ?thesis by (simp add: reading)
qed

lemma read_frames_member:
  assumes "list_all frame_plain frames"
  shows
    \<open>foldl step (Reading ExpectKey (InObject kvs None # stk))
       (''"frames": '' @ (''['' @ frames_loop frames @ '']'') @ ''}'') =
     finish (JObject (rev kvs @ [(''frames'', JArray (map frame_value frames))])) stk\<close>
proof -
  have a: \<open>foldl step (Reading ExpectKey (InObject kvs None # stk)) ''"frames": '' =
           Reading ExpectValue (InObject kvs (Some ''frames'') # stk)\<close>
    by (simp add: reading)
  have b: "foldl step (Reading ExpectValue (InObject kvs (Some ''frames'') # stk))
             (''['' @ frames_loop frames @ '']'') =
           Reading AfterValue
             (InObject ((''frames'', JArray (map frame_value frames)) # kvs) None # stk)"
    by (simp only: read_trace [OF assms] finish.simps)
  have c: "foldl step (Reading AfterValue (InObject (x # kvs) None # stk)) ''}'' =
           finish (JObject (rev kvs @ [x])) stk" for x
    by (simp add: is_ws_def)
  show ?thesis
    by (subst foldl_append, subst a, subst foldl_append, subst b, rule c)
qed

lemma read_fallback_member:
  assumes "plain_text s"
  shows
    \<open>foldl step (Reading ExpectKey (InObject kvs None # stk))
       (''"frames": '' @ (''[{'' @ [] @ [] @ ''"scriptName": "'' @ s @ ''"    }]'') @ ''}'') =
     finish (JObject (rev kvs @ [(''frames'', JArray [JObject [(''scriptName'', JString s)]])])) stk\<close>
  using assms by (simp add: reading)

text \<open>What the optional blocks return, and how they are read.\<close>

lemma source_line_eq:
  \<open>source_line m =
     Inr (case GetSourceLine m of
            None \<Rightarrow> []
          | Some l \<Rightarrow> ''"sourceLine": "'' @ concat (map escape_char l) @ ''",'')\<close>
  by (simp add: source_line_def EscapeString_eq split: option.splits)

lemma line_number_eq:
  \<open>line_number m =
     Inr (case GetLineNumber m of None \<Rightarrow> [] | Some n \<Rightarrow> ''"lineNumber": '' @ show_int n @ '','')\<close>
  by (simp add: line_number_def IsJust_def FromJust_def and_then_def split: option.splits)

lemma start_column_eq:
  \<open>start_column m =
     Inr (case GetStartColumn m of None \<Rightarrow> [] | Some n \<Rightarrow> ''"startColumn": '' @ show_int n @ '','')\<close>
  by (simp add: start_column_def IsJust_def FromJust_def and_then_def split: option.splits)

lemma end_column_eq:
  \<open>end_column m =
     Inr (case GetEndColumn m of None \<Rightarrow> [] | Some n \<Rightarrow> ''"endColumn": '' @ show_int n @ '','')\<close>
  by (simp add: end_column_def IsJust_def FromJust_def and_then_def split: option.splits)

lemma read_optional:
  assumes "case GetSourceLine m of None \<Rightarrow> True | Some l \<Rightarrow> plain_but_quotes l"
  shows
    "\<exists>sl ln sc ec.
       source_line m = Inr sl \<and> line_number m = Inr ln \<and>
       start_column m = Inr sc \<and> end_column m = Inr ec \<and>
       (\<forall>kvs stk.
          foldl step (Reading ExpectKey (InObject kvs None # stk)) (sl @ ln @ sc @ ec) =
          Reading ExpectKey (InObject (rev (optional_members m) @ kvs) None # stk))"
proof -
  have r0: "rev [] @ ys = ys" for ys :: "(string \<times> json) list" by simp
  have r1: "rev [x] @ ys = x # ys" for x and ys :: "(string \<times> json) list" by simp
  have sl: "foldl step (Reading ExpectKey (InObject kvs None # stk)) (projr (source_line m)) =
      Reading ExpectKey
        (InObject
           (rev (case GetSourceLine m of None \<Rightarrow> [] | Some l \<Rightarrow> [(''sourceLine'', JString l)]) @ kvs)
           None # stk)" for kvs stk
    using assms unfolding source_line_eq
    by (cases "GetSourceLine m") (simp_all only: read_source_line option.case sum.sel
          foldl_Nil r0 r1)
  have ln: "foldl step (Reading ExpectKey (InObject kvs None # stk)) (projr (line_number m)) =
      Reading ExpectKey
        (InObject (rev (optional_number ''lineNumber'' (GetLineNumber m)) @ kvs) None # stk)"
    for kvs stk
    unfolding line_number_eq optional_number_def
    by (cases "GetLineNumber m") (simp_all only: read_line_number option.case sum.sel
          foldl_Nil r0 r1)
  have sc: "foldl step (Reading ExpectKey (InObject kvs None # stk)) (projr (start_column m)) =
      Reading ExpectKey
        (InObject (rev (optional_number ''startColumn'' (GetStartColumn m)) @ kvs) None # stk)"
    for kvs stk
    unfolding start_column_eq optional_number_def
    by (cases "GetStartColumn m") (simp_all only: read_start_column option.case sum.sel
          foldl_Nil r0 r1)
  have ec: "foldl step (Reading ExpectKey (InObject kvs None # stk)) (projr (end_column m)) =
      Reading ExpectKey
        (InObject (rev (optional_number ''endColumn'' (GetEndColumn m)) @ kvs) None # stk)"
    for kvs stk
    unfolding end_column_eq optional_number_def
    by (cases "GetEndColumn m") (simp_all only: read_end_column option.case sum.sel
          foldl_Nil r0 r1)
  have all: "foldl step (Reading ExpectKey (InObject kvs None # stk))
          (projr (source_line m) @ projr (line_number m) @ projr (start_column m) @
           projr (end_column m)) =
        Reading ExpectKey (InObject (rev (optional_members m) @ kvs) None # stk)" for kvs stk
    by (simp only: foldl_append sl ln sc ec optional_members_def rev_append append_assoc)
  have "source_line m = Inr (projr (source_line m))" by (simp add: source_line_eq)
  moreover have "line_number m = Inr (projr (line_number m))" by (simp add: line_number_eq)
  moreover have "start_column m = Inr (projr (start_column m))" by (simp add: start_column_eq)
  moreover have "end_column m = Inr (projr (end_column m))" by (simp add: end_column_eq)
  ultimately show ?thesis using all by blast
qed

text \<open>
  With a trace, and texts that need no more escaping than the encoder does, the
  encoder returns a report, and the report reads as the object of the data model:
  the required members, the optional members that are resolved, and \<open>frames\<close> with
  one element for each frame of the trace, in the order of the trace.
\<close>

lemma report_with_trace:
  assumes tp: "texts_plain m" and tr: "GetStackTrace m = Some frames"
  shows
    "\<exists>out. EncodeMessageAsJSON m = Inr out \<and>
       parse_json out =
         Some (JObject (required_members m @ optional_members m @
                        [(''frames'', JArray (map frame_value frames))]))"
proof -
  from tp tr have p: "plain_text (Get m)" "plain_text (GetScriptResourceName m)"
    "case GetSourceLine m of None \<Rightarrow> True | Some l \<Rightarrow> plain_but_quotes l"
    "list_all frame_plain frames"
    by (simp_all add: texts_plain_def)
  from read_optional [OF p(3)] obtain sl ln sc ec where
    seg: "source_line m = Inr sl" "line_number m = Inr ln"
      "start_column m = Inr sc" "end_column m = Inr ec"
    and opt: "\<And>kvs stk.
      foldl step (Reading ExpectKey (InObject kvs None # stk)) (sl @ ln @ sc @ ec) =
      Reading ExpectKey (InObject (rev (optional_members m) @ kvs) None # stk)"
    by blast
  define out where
    \<open>out =
       (''{    "message": "'' @ Get m @
        ''",    "scriptResourceName": "'' @ GetScriptResourceName m @
        ''",    "startPosition": '' @ show_int (GetStartPosition m) @
        '',    "endPosition": '' @ show_int (GetEndPosition m) @
        '',    "errorLevel": '' @ show_int (ErrorLevel m) @
        '',    "isSharedCrossOrigin": '' @ show_bool (IsSharedCrossOrigin m) @
        '',    "isOpaque": '' @ show_bool (IsOpaque m) @ '','') @
       (sl @ ln @ sc @ ec) @
       (''"frames": '' @ (''['' @ frames_loop frames @ '']'') @ ''}'')\<close>
  have enc: "EncodeMessageAsJSON m = Inr out"
    by (simp add: EncodeMessageAsJSON_def and_then_def seg stack_trace_json_def tr out_def)
  have "foldl step (Reading ExpectValue []) out =
        finish (JObject (rev (rev (optional_members m) @ rev (required_members m)) @
                         [(''frames'', JArray (map frame_value frames))])) []"
    unfolding out_def
    by (subst foldl_append, subst read_required [OF p(1,2)], subst foldl_append, subst opt,
        rule read_frames_member [OF p(4)])
  then have "parse_json out =
        Some (JObject (required_members m @ optional_members m @
                       [(''frames'', JArray (map frame_value frames))]))"
    by (simp add: parse_json_def)
  with enc show ?thesis by blast
qed

text \<open>
  Without a trace, a report that the encoder returns has both position tests passed
  with a resolved value, so the fallback frame holds the script name only.
\<close>

lemma fallback_returns:
  assumes "GetStackTrace m = None" and "stack_trace_json m = Inr t"
  shows \<open>\<exists>s. Stringify_ScriptResourceName m = Some s \<and>
           t = ''[{'' @ [] @ [] @ ''"scriptName": "'' @ s @ ''"    }]''\<close>
  using assms
  by (auto simp: stack_trace_json_def fallback_line_def fallback_column_def and_then_def
        IsJust_def FromJust_def ToLocalChecked_def split: option.splits if_splits)

text \<open>
  When the encoder returns at all: with a trace always; without one, only if the line
  number and the start column are resolved and the resource name can be stringified.
\<close>

lemma encoder_returns_iff:
  "(\<exists>out. EncodeMessageAsJSON m = Inr out) \<longleftrightarrow>
   (GetStackTrace m \<noteq> None \<or>
    (GetLineNumber m \<noteq> None \<and> GetStartColumn m \<noteq> None \<and>
     Stringify_ScriptResourceName m \<noteq> None))"
  by (auto simp: EncodeMessageAsJSON_def and_then_def source_line_eq line_number_eq
        start_column_eq end_column_eq stack_trace_json_def fallback_line_def
        fallback_column_def IsJust_def FromJust_def ToLocalChecked_def
        split: option.splits sum.splits)

lemma report_without_trace:
  assumes tp: "texts_plain m" and sp: "stringified_plain m" and tr: "GetStackTrace m = None"
    and enc: "EncodeMessageAsJSON m = Inr out"
  shows
    "\<exists>s. Stringify_ScriptResourceName m = Some s \<and>
       parse_json out =
         Some (JObject (required_members m @ optional_members m @
                        [(''frames'', JArray [JObject [(''scriptName'', JString s)]])]))"
proof -
  from tp have p: "plain_text (Get m)" "plain_text (GetScriptResourceName m)"
    "case GetSourceLine m of None \<Rightarrow> True | Some l \<Rightarrow> plain_but_quotes l"
    by (simp_all add: texts_plain_def)
  from read_optional [OF p(3)] obtain sl ln sc ec where
    seg: "source_line m = Inr sl" "line_number m = Inr ln"
      "start_column m = Inr sc" "end_column m = Inr ec"
    and opt: "\<And>kvs stk.
      foldl step (Reading ExpectKey (InObject kvs None # stk)) (sl @ ln @ sc @ ec) =
      Reading ExpectKey (InObject (rev (optional_members m) @ kvs) None # stk)"
    by blast
  from enc obtain t where t: "stack_trace_json m = Inr t"
    by (auto simp: EncodeMessageAsJSON_def and_then_def seg split: sum.splits)
  from fallback_returns [OF tr t] obtain s where
    s: "Stringify_ScriptResourceName m = Some s"
    and t_eq: \<open>t = ''[{'' @ [] @ [] @ ''"scriptName": "'' @ s @ ''"    }]''\<close>
    by blast
  from sp s have ps: "plain_text s" by (simp add: stringified_plain_def)
  define out' where
    \<open>out' =
       (''{    "message": "'' @ Get m @
        ''",    "scriptResourceName": "'' @ GetScriptResourceName m @
        ''",    "startPosition": '' @ show_int (GetStartPosition m) @
        '',    "endPosition": '' @ show_int (GetEndPosition m) @
        '',    "errorLevel": '' @ show_int (ErrorLevel m) @
        '',    "isSharedCrossOrigin": '' @ show_bool (IsSharedCrossOrigin m) @
        '',    "isOpaque": '' @ show_bool (IsOpaque m) @ '','') @
       (sl @ ln @ sc @ ec) @
       (''"frames": '' @ (''[{'' @ [] @ [] @ ''"scriptName": "'' @ s @ ''"    }]'') @ ''}'')\<close>
  have "EncodeMessageAsJSON m = Inr out'"
    by (simp add: EncodeMessageAsJSON_def and_then_def seg t t_eq out'_def)
  with enc have out: "out = out'" by simp
  have "foldl step (Reading ExpectValue []) out' =
        finish (JObject (rev (rev (optional_members m) @ rev (required_members m)) @
                         [(''frames'', JArray [JObject [(''scriptName'', JString s)]])])) []"
    unfolding out'_def
    by (subst foldl_append, subst read_required [OF p(1,2)], subst foldl_append, subst opt,
        rule read_fallback_member [OF ps])
  then have "parse_json out =
        Some (JObject (required_members m @ optional_members m @
                       [(''frames'', JArray [JObject [(''scriptName'', JString s)]])]))"
    by (simp add: parse_json_def out)
  with s show ?thesis by blast
qed

lemma frames_not_before:
  "map_of (required_members m @ optional_members m) ''frames'' = None"
  by (simp add: required_members_def optional_members_def optional_number_def
        split: option.splits)

lemma frames_member:
  "map_of (required_members m @ optional_members m @ [(''frames'', v)]) ''frames'' = Some v"
  using frames_not_before [of m] by (auto simp: map_add_def split: option.splits)

lemma optional_number_members:
  "map_of (required_members m @ optional_members m @ [(''frames'', v)]) ''lineNumber'' =
     map_option (\<lambda>n. JNumber (show_int n)) (GetLineNumber m) \<and>
   map_of (required_members m @ optional_members m @ [(''frames'', v)]) ''startColumn'' =
     map_option (\<lambda>n. JNumber (show_int n)) (GetStartColumn m) \<and>
   map_of (required_members m @ optional_members m @ [(''frames'', v)]) ''endColumn'' =
     map_option (\<lambda>n. JNumber (show_int n)) (GetEndColumn m)"
  by (simp add: required_members_def optional_members_def optional_number_def map_add_def
        split: option.splits)

lemma encoded_field_with_trace:
  assumes "texts_plain m" and "GetStackTrace m = Some frames"
  shows "encoded_field key m =
     map_of (required_members m @ optional_members m @
             [(''frames'', JArray (map frame_value frames))]) key"
  using report_with_trace [OF assms]
  by (auto simp: encoded_field_def json_field_def)

lemma encoded_field_without_trace:
  assumes "texts_plain m" and "stringified_plain m" and "GetStackTrace m = None"
    and "EncodeMessageAsJSON m = Inr out"
  shows "\<exists>s. Stringify_ScriptResourceName m = Some s \<and>
     encoded_field key m =
       map_of (required_members m @ optional_members m @
               [(''frames'', JArray [JObject [(''scriptName'', JString s)]])]) key"
  using report_without_trace [OF assms] assms(4)
  by (auto simp: encoded_field_def json_field_def)

text \<open>
  On every message whose texts need no escaping (and, without a trace, whose
  stringified resource name is plain) and for which a report is returned, each of
  \<open>lineNumber\<close>, \<open>startColumn\<close> and \<open>endColumn\<close> is a member of the report exactly
  when its own value is resolved, and then it is the numeral of that value.
\<close>

lemma optional_keys_independent:
  assumes "texts_plain m" and "GetStackTrace m = None \<longrightarrow> stringified_plain m"
    and "EncodeMessageAsJSON m = Inr out"
  shows
    "encoded_field ''lineNumber'' m = map_option (\<lambda>n. JNumber (show_int n)) (GetLineNumber m) \<and>
     encoded_field ''startColumn'' m = map_option (\<lambda>n. JNumber (show_int n)) (GetStartColumn m) \<and>
     encoded_field ''endColumn'' m = map_option (\<lambda>n. JNumber (show_int n)) (GetEndColumn m)"
proof (cases "GetStackTrace m")
  case None
  with assms(2) have sp: "stringified_plain m" by simp
  from encoded_field_without_trace [OF assms(1) sp None assms(3)]
  show ?thesis using optional_number_members by metis
next
  case (Some frames)
  show ?thesis
    by (simp only: encoded_field_with_trace [OF assms(1) Some] optional_number_members)
qed

text \<open>
  The report ends with the member \<open>frames\<close>, and the text of its value is what
  \<open>stack_trace_json\<close> returns.
\<close>

lemma report_ends_with_frames:
  assumes "EncodeMessageAsJSON m = Inr out"
  shows \<open>\<exists>head t. stack_trace_json m = Inr t \<and> out = head @ ''"frames": '' @ t @ ''}''\<close>
proof -
  from assms obtain sl ln sc ec t where
    t: "stack_trace_json m = Inr t"
    and out: \<open>out =
      (''{    "message": "'' @ Get m @
       ''",    "scriptResourceName": "'' @ GetScriptResourceName m @
       ''",    "startPosition": '' @ show_int (GetStartPosition m) @
       '',    "endPosition": '' @ show_int (GetEndPosition m) @
       '',    "errorLevel": '' @ show_int (ErrorLevel m) @
       '',    "isSharedCrossOrigin": '' @ show_bool (IsSharedCrossOrigin m) @
       '',    "isOpaque": '' @ show_bool (IsOpaque m) @ '','' @
       sl @ ln @ sc @ ec) @ ''"frames": '' @ t @ ''}''\<close>
    by (auto simp: EncodeMessageAsJSON_def and_then_def split: sum.splits)
  then show ?thesis by blast
qed

text \<open>
  The text of \<open>frames\<close> is the empty array exactly for a trace that is present and
  has no frame.
\<close>

lemma frames_text_empty_iff:
  assumes "stack_trace_json m = Inr t"
  shows "t = ''[]'' \<longleftrightarrow> GetStackTrace m = Some []"
proof (cases "GetStackTrace m")
  case None
  with assms show ?thesis
    by (auto simp: stack_trace_json_def and_then_def split: sum.splits)
next
  case (Some frames)
  with assms show ?thesis
    by (cases frames) (auto simp: stack_trace_json_def frame_json_def)
qed

text \<open>
  C6, as amended. Every report that is returned ends with the member \<open>frames\<close>, and
  the text of its value is the empty array exactly when a trace is present and has no
  frame: it is not empty for a trace with a frame, nor without a trace. For a message
  with a trace whose texts need no escaping, the report parses and \<open>frames\<close> is the
  array of the frames of the trace, one element for each frame and in their order.
  Without a trace, for a message whose texts need no escaping and whose stringified
  resource name is plain, a report that is returned parses and has exactly one
  element in \<open>frames\<close>.
\<close>

theorem frames_one_per_frame:
  \<open>(\<forall>out. EncodeMessageAsJSON m = Inr out \<longrightarrow>
      (\<exists>head t. stack_trace_json m = Inr t \<and>
         out = head @ ''"frames": '' @ t @ ''}'' \<and>
         (t = ''[]'' \<longleftrightarrow> GetStackTrace m = Some []))) \<and>
   (\<forall>frames. texts_plain m \<and> GetStackTrace m = Some frames \<longrightarrow>
      encoded_field ''frames'' m = Some (JArray (map frame_value frames))) \<and>
   (\<forall>out s. texts_plain m \<and> GetStackTrace m = None \<and> EncodeMessageAsJSON m = Inr out \<and>
      Stringify_ScriptResourceName m = Some s \<and> plain_text s \<longrightarrow>
      (\<exists>frame. encoded_field ''frames'' m = Some (JArray [frame])))\<close>
proof (intro conjI allI impI)
  fix out
  assume "EncodeMessageAsJSON m = Inr out"
  from report_ends_with_frames [OF this] obtain head t where
    t: "stack_trace_json m = Inr t" and out: \<open>out = head @ ''"frames": '' @ t @ ''}''\<close>
    by blast
  from frames_text_empty_iff [OF t] t out
  show \<open>\<exists>head t. stack_trace_json m = Inr t \<and>
          out = head @ ''"frames": '' @ t @ ''}'' \<and>
          (t = ''[]'' \<longleftrightarrow> GetStackTrace m = Some [])\<close>
    by blast
next
  fix frames
  assume "texts_plain m \<and> GetStackTrace m = Some frames"
  then have "texts_plain m" and "GetStackTrace m = Some frames" by simp_all
  from encoded_field_with_trace [OF this]
  show "encoded_field ''frames'' m = Some (JArray (map frame_value frames))"
    by (simp only: frames_member)
next
  fix out s
  assume a: "texts_plain m \<and> GetStackTrace m = None \<and> EncodeMessageAsJSON m = Inr out \<and>
      Stringify_ScriptResourceName m = Some s \<and> plain_text s"
  then have sp: "stringified_plain m" by (simp add: stringified_plain_def)
  from a have "texts_plain m" and "GetStackTrace m = None" and "EncodeMessageAsJSON m = Inr out"
    by simp_all
  from encoded_field_without_trace [OF this(1) sp this(2,3), of "''frames''"]
  show "\<exists>frame. encoded_field ''frames'' m = Some (JArray [frame])"
    by (auto simp only: frames_member)
qed

theorem frames_one_per_frame_witness:
  \<open>texts_plain boo_message \<and>
   GetStackTrace boo_message = Some [boo_frame] \<and>
   encoded_field ''frames'' boo_message = Some (JArray [frame_value boo_frame]) \<and>
   texts_plain empty_trace_message \<and>
   GetStackTrace empty_trace_message = Some [] \<and>
   stack_trace_json empty_trace_message = Inr ''[]'' \<and>
   encoded_field ''frames'' empty_trace_message = Some (JArray []) \<and>
   texts_plain anonymous_message \<and>
   GetStackTrace anonymous_message = None \<and>
   EncodeMessageAsJSON anonymous_message = Inr (projr (EncodeMessageAsJSON anonymous_message)) \<and>
   Stringify_ScriptResourceName anonymous_message = Some ''undefined'' \<and>
   plain_text ''undefined'' \<and>
   (\<exists>frame. encoded_field ''frames'' anonymous_message = Some (JArray [frame])) \<and>
   EncodeMessageAsJSON compile_error_message =
     Inr (projr (EncodeMessageAsJSON compile_error_message)) \<and>
   GetStackTrace compile_error_message = None \<and>
   stack_trace_json compile_error_message \<noteq> Inr ''[]''\<close>
proof -
  have b: "texts_plain boo_message" by code_simp
  have bt: "GetStackTrace boo_message = Some [boo_frame]" by (simp add: boo_message_def)
  have e: "texts_plain empty_trace_message" by code_simp
  have et: "GetStackTrace empty_trace_message = Some []" by (simp add: empty_trace_message_def)
  have er: "EncodeMessageAsJSON empty_trace_message =
            Inr (projr (EncodeMessageAsJSON empty_trace_message))"
    by code_simp
  have a: "texts_plain anonymous_message" by code_simp
  have at: "GetStackTrace anonymous_message = None" by (simp add: anonymous_message_def)
  have ar: "EncodeMessageAsJSON anonymous_message =
            Inr (projr (EncodeMessageAsJSON anonymous_message))"
    by code_simp
  have as: "Stringify_ScriptResourceName anonymous_message = Some ''undefined''"
    by (simp add: anonymous_message_def)
  have ap: "plain_text ''undefined''" by code_simp
  have cr: "EncodeMessageAsJSON compile_error_message =
            Inr (projr (EncodeMessageAsJSON compile_error_message))"
    by code_simp
  have ct: "GetStackTrace compile_error_message = None"
    by (simp add: compile_error_message_def)
  from frames_one_per_frame [of boo_message] b bt
  have 1: "encoded_field ''frames'' boo_message = Some (JArray [frame_value boo_frame])"
    by simp
  from frames_one_per_frame [of empty_trace_message] e et er
  have 2: "stack_trace_json empty_trace_message = Inr ''[]''"
    and 3: "encoded_field ''frames'' empty_trace_message = Some (JArray [])"
    by auto
  from frames_one_per_frame [of anonymous_message] a at ar as ap
  have 4: "\<exists>frame. encoded_field ''frames'' anonymous_message = Some (JArray [frame])"
    by blast
  from frames_one_per_frame [of compile_error_message] cr ct
  have 5: "stack_trace_json compile_error_message \<noteq> Inr ''[]''"
    by auto
  from b bt 1 e et 2 3 a at ar as ap 4 cr ct 5 show ?thesis by blast
qed

text \<open>
  C7, at a failing input: the line number is unresolved, the start column is resolved
  to 6, there is no trace. The encoder does not return, so no report holds
  \<open>startColumn\<close>.
\<close>

theorem unresolved_line_suppresses_start_column:
  "GetLineNumber unresolved_line_message = None \<and>
   GetStartColumn unresolved_line_message = Some 6 \<and>
   EncodeMessageAsJSON unresolved_line_message = Inl FromJustIsNothing \<and>
   encoded_field ''startColumn'' unresolved_line_message = None"
  by code_simp


end
